theory Spec2Isabelle
  imports Complex_Main "HOL-Library.Word" "HOL-Library.AList"
begin

section \<open>Errors\<close>

text \<open>
  The \<^verbatim>\<open>errors\<close> slice of the GraphQL transport: one entry per service-reported error,
  with its message and its source locations (line, column).
\<close>

record gqlerror =
  Message :: string
  Locations :: "(int \<times> int) list"

text \<open>
  Every way a call of the package ends abnormally.  \<open>Errorf m\<close> is an error built by
  \<^verbatim>\<open>fmt.Errorf\<close> with the formatted message \<open>m\<close>; \<open>LibError m\<close> is an error handed
  back by a library (HTTP transport, JSON codec, file system); \<open>EOF\<close> is \<^verbatim>\<open>io.EOF\<close>;
  \<open>GraphQLErrors es\<close> is the \<^verbatim>\<open>errors\<close> slice returned through the error interface;
  \<open>Panic m\<close> is a run-time panic raised inside a reflection call.
\<close>

datatype error =
    Errorf string
  | LibError string
  | EOF
  | GraphQLErrors "gqlerror list"
  | Panic string

text \<open>\<^verbatim>\<open>err.Error()\<close>, as \<^verbatim>\<open>%s\<close> prints it.  \<^verbatim>\<open>errors.Error\<close> returns \<^verbatim>\<open>e[0].Message\<close>.\<close>

fun Error :: "error \<Rightarrow> string" where
  "Error (Errorf m) = m"
| "Error (LibError m) = m"
| "Error EOF = ''EOF''"
| "Error (GraphQLErrors es) = (case es of [] \<Rightarrow> ''index out of range'' | e # _ \<Rightarrow> Message e)"
| "Error (Panic m) = m"


section \<open>Transport\<close>

text \<open>
  \<^verbatim>\<open>time.Duration\<close> is a signed 64-bit count of nanoseconds; its arithmetic wraps around.
\<close>

type_synonym Duration = "64 word"

definition Second :: Duration where
  "Second = 1000000000"

text \<open>
  The \<^verbatim>\<open>float64\<close> operations that \<^verbatim>\<open>do\<close> applies to the cost envelope: comparison,
  subtraction, division, \<^verbatim>\<open>math.Ceil\<close> and the conversion \<^verbatim>\<open>time.Duration(x)\<close> to a signed
  64-bit integer.  The model of \<^verbatim>\<open>do\<close> takes them as a parameter, so that what is proved of
  it holds for the machine's arithmetic, whatever it rounds to.
\<close>

record 'f float64 =
  flt :: "'f \<Rightarrow> 'f \<Rightarrow> bool"
  fsub :: "'f \<Rightarrow> 'f \<Rightarrow> 'f"
  fdiv :: "'f \<Rightarrow> 'f \<Rightarrow> 'f"
  Ceil :: "'f \<Rightarrow> 'f"
  toInt64 :: "'f \<Rightarrow> 64 word"

text \<open>
  Exact arithmetic on the reals: subtraction and division without rounding, and a
  conversion that truncates towards zero.  On inputs such as \<open>10\<close>, \<open>4\<close> and \<open>2\<close>, where
  every intermediate result is a small integer, \<^verbatim>\<open>float64\<close> arithmetic is exact as well.
\<close>

definition exact :: "real float64" where
  "exact = \<lparr>flt = (\<lambda>x y. x < y), fsub = (\<lambda>x y. x - y), fdiv = (\<lambda>x y. x / y),
            Ceil = (\<lambda>x. of_int \<lceil>x\<rceil>),
            toInt64 = (\<lambda>x. word_of_int (if 0 \<le> x then \<lfloor>x\<rfloor> else \<lceil>x\<rceil>))\<rparr>"

record 'f ThrottleStatus =
  MaximumAvailable :: 'f
  CurrentlyAvailable :: 'f
  RestoreRate :: 'f

record 'f Cost =
  RequestedQueryCost :: 'f
  ActualQueryCost :: 'f
  ThrottleStatus :: "'f ThrottleStatus"

record 'f Extensions =
  Cost :: "'f Cost option"

text \<open>
  The struct \<^verbatim>\<open>out\<close> that the response body is decoded into.  \<^verbatim>\<open>Data\<close> is the raw JSON of
  the \<^verbatim>\<open>data\<close> member, \<open>None\<close> when \<^verbatim>\<open>nil\<close>.
\<close>

record 'f envelope =
  Data :: "string option"
  Errors :: "gqlerror list"
  Extensions :: "'f Extensions option"

text \<open>
  An HTTP response: status code, status line, the bytes of the body, and what
  \<^verbatim>\<open>json.NewDecoder(resp.Body).Decode(&out)\<close> makes of them (the fields it has set in
  \<^verbatim>\<open>out\<close>, and its error).
\<close>

record 'f response =
  StatusCode :: nat
  StatusLine :: string
  Body :: string
  decoded :: "'f envelope"
  decodeErr :: "error option"

text \<open>
  The libraries \<^verbatim>\<open>do\<close> calls: \<open>encode\<close> is the JSON encoding of the request (query and
  variables), \<open>post\<close> is \<^verbatim>\<open>ctxhttp.Post\<close> of an encoded request, \<open>unmarshal\<close> is
  \<^verbatim>\<open>json.Unmarshal(*out.Data, v)\<close> into the caller's destination.
\<close>

record 'f net =
  encode :: "string \<Rightarrow> string \<Rightarrow> error + string"
  post :: "string \<Rightarrow> error + 'f response"
  unmarshal :: "string \<Rightarrow> error option"

text \<open>
  What \<^verbatim>\<open>do\<close> has done: the request bodies posted, the durations slept, and the raw data
  decoded into the destination \<^verbatim>\<open>v\<close> (when the decoding succeeded).
\<close>

record wire =
  posts :: "string list"
  slept :: "Duration list"
  dest :: "string option"

definition idle :: wire where
  "idle = \<lparr>posts = [], slept = [], dest = None\<rparr>"

text \<open>\<^verbatim>\<open>%q\<close> of the body: double quotes around it, with \<^verbatim>\<open>"\<close> and \<^verbatim>\<open>\\<close> escaped
  (the escapes of unprintable bytes are left out).\<close>

definition quoted :: "string \<Rightarrow> string" where
  "quoted b = [CHR 0x22]
     @ concat (map (\<lambda>c. if c = CHR 0x22 \<or> c = CHR 0x5C then [CHR 0x5C, c] else [c]) b)
     @ [CHR 0x22]"

text \<open>Lines 103 to 116 of \<^verbatim>\<open>do\<close>: the back-off sleep of a throttled request.\<close>

definition backoff :: "'f float64 \<Rightarrow> 'f envelope \<Rightarrow> wire \<Rightarrow> wire" where
  "backoff fl out w =
     (if length (Errors out) > 0 \<and> Extensions out \<noteq> None then
        (if Message (hd (Errors out)) = ''Throttled'' then
           (case Cost (the (Extensions out)) of
              Some cost \<Rightarrow>
                (let requestedQueryCost = RequestedQueryCost cost;
                     throttleStatus = ThrottleStatus cost;
                     currentlyAvailable = CurrentlyAvailable throttleStatus;
                     restoreRate = RestoreRate throttleStatus
                 in if flt fl currentlyAvailable requestedQueryCost then
                      (let timeSleep =
                             Ceil fl (fdiv fl (fsub fl requestedQueryCost currentlyAvailable) restoreRate)
                       in w\<lparr>slept := slept w @ [toInt64 fl timeSleep * Second]\<rparr>)
                    else w)
            | None \<Rightarrow> w)
         else w)
      else w)"

definition do :: "'f float64 \<Rightarrow> 'f net \<Rightarrow> string \<Rightarrow> string \<Rightarrow> wire \<Rightarrow> error option \<times> wire" where
  "do fl net query variables w =
     (case encode net query variables of
        Inl err \<Rightarrow> (Some err, w)
      | Inr buf \<Rightarrow>
          (let w1 = w\<lparr>posts := posts w @ [buf]\<rparr> in
           case post net buf of
             Inl err \<Rightarrow> (Some err, w1)
           | Inr resp \<Rightarrow>
               if StatusCode resp \<noteq> 200 then
                 (Some (Errorf (''non-200 OK status code: '' @ StatusLine resp
                                 @ '' body: '' @ quoted (Body resp))), w1)
               else
                 (let out = decoded resp;
                      err = decodeErr resp;
                      w2 = backoff fl out w1
                  in if err \<noteq> None then (err, w2)
                     else
                       (case (case Data out of None \<Rightarrow> (None, w2)
                                | Some d \<Rightarrow>
                                    (case unmarshal net d of
                                       Some err \<Rightarrow> (Some err, w2)
                                     | None \<Rightarrow> (None, w2\<lparr>dest := Some d\<rparr>)))
                        of (Some err, w3) \<Rightarrow> (Some err, w3)
                         | (None, w3) \<Rightarrow>
                             if length (Errors out) > 0 then (Some (GraphQLErrors (Errors out)), w3)
                             else (None, w3)))))"


text \<open>
  \<^verbatim>\<open>time.Sleep(d)\<close> pauses for \<open>d\<close> when \<open>d\<close> is positive and returns at once otherwise:
  the time, in nanoseconds, that a call spends in it, and the time spent in all the sleeps
  of a run.
\<close>

definition pause :: "Duration \<Rightarrow> int" where
  "pause d = (if 0 < sint d then sint d else 0)"

definition asleep :: "wire \<Rightarrow> int" where
  "asleep w = sum_list (map pause (slept w))"

text \<open>
  The delay in the words of the specification, in whole seconds:
  \<^verbatim>\<open>ceil((requestedCost - currentlyAvailable) / restoreRate)\<close>, where \<open>val\<close> reads a \<^verbatim>\<open>float64\<close>
  as the real number it stands for.
\<close>

definition spec_delay :: "('f \<Rightarrow> real) \<Rightarrow> 'f Cost \<Rightarrow> int" where
  "spec_delay val c =
     \<lceil>(val (RequestedQueryCost c) - val (CurrentlyAvailable (ThrottleStatus c)))
        / val (RestoreRate (ThrottleStatus c))\<rceil>"

text \<open>The value of the variable \<^verbatim>\<open>timeSleep\<close> of line 111, as the machine computes it.\<close>

definition timeSleep :: "'f float64 \<Rightarrow> 'f Cost \<Rightarrow> 'f" where
  "timeSleep fl c =
     Ceil fl (fdiv fl (fsub fl (RequestedQueryCost c) (CurrentlyAvailable (ThrottleStatus c)))
                (RestoreRate (ThrottleStatus c)))"

text \<open>
  A throttled reply, for running \<^verbatim>\<open>do\<close> on: one error with the message \<^verbatim>\<open>Throttled\<close>, a
  cost envelope with the given requested cost, available budget and restore rate, and the
  given \<^verbatim>\<open>data\<close> member.
\<close>

definition throttled :: "real \<Rightarrow> real \<Rightarrow> real \<Rightarrow> string option \<Rightarrow> real envelope" where
  "throttled req cur rate d =
     \<lparr>Data = d, Errors = [\<lparr>Message = ''Throttled'', Locations = []\<rparr>],
      Extensions = Some \<lparr>Cost = Some \<lparr>RequestedQueryCost = req, ActualQueryCost = 0,
         ThrottleStatus = \<lparr>MaximumAvailable = 1000, CurrentlyAvailable = cur, RestoreRate = rate\<rparr>\<rparr>\<rparr>\<rparr>"

text \<open>A cost envelope with the given requested cost, available budget and restore rate.\<close>

definition cost :: "real \<Rightarrow> real \<Rightarrow> real \<Rightarrow> real Cost" where
  "cost req cur rate = \<lparr>RequestedQueryCost = req, ActualQueryCost = 0,
         ThrottleStatus = \<lparr>MaximumAvailable = 1000, CurrentlyAvailable = cur, RestoreRate = rate\<rparr>\<rparr>"

text \<open>
  A network that answers every request with \<^verbatim>\<open>200 OK\<close> and the given envelope, decoded
  without error; its destination accepts the data \<^verbatim>\<open>null\<close> only.
\<close>

definition exampleNet :: "real envelope \<Rightarrow> real net" where
  "exampleNet env =
     \<lparr>encode = (\<lambda>q v. Inr (q @ v)),
      post = (\<lambda>b. Inr \<lparr>StatusCode = 200, StatusLine = ''200 OK'', Body = [], decoded = env, decodeErr = None\<rparr>),
      unmarshal = (\<lambda>d. if d = ''null'' then None else Some (LibError ''json: cannot unmarshal''))\<rparr>"


section \<open>Bulk operation controller\<close>

text \<open>
  A snapshot of the current bulk operation.  \<^verbatim>\<open>graphql.ID\<close> is an interface value: \<open>None\<close>
  is \<^verbatim>\<open>nil\<close>, \<open>Some s\<close> the identifier string the service sent.
\<close>

record CurrentBulkOperation =
  ID :: "string option"
  Status :: string
  ErrorCode :: string
  CreatedAt :: string
  CompletedAt :: string
  ObjectCount :: string
  FileSize :: string
  URL :: string
  PartialDataURL :: string
  Query :: string

text \<open>The zero value \<^verbatim>\<open>CurrentBulkOperation{}\<close>.\<close>

definition zeroOperation :: CurrentBulkOperation where
  "zeroOperation =
     \<lparr>ID = None, Status = [], ErrorCode = [], CreatedAt = [], CompletedAt = [],
      ObjectCount = [], FileSize = [], URL = [], PartialDataURL = [], Query = []\<rparr>"

text \<open>
  The remote service, as the controller sees it through \<^verbatim>\<open>s.client.gql\<close>:
  \<open>currentOp n\<close> is the reply to the \<open>n\<close>-th \<^verbatim>\<open>currentBulkOperation\<close> query of the session
  (a transport error or a snapshot), \<open>cancelReply id\<close> the reply to the
  \<^verbatim>\<open>bulkOperationCancel\<close> mutation (a transport error or the list of user errors).
\<close>

record service =
  currentOp :: "nat \<Rightarrow> error + CurrentBulkOperation"
  cancelReply :: "string option \<Rightarrow> error + string list"

text \<open>
  What a call has done to the outside world so far: the number of status queries sent, the
  identifiers passed to the cancel mutation, and the durations slept.
\<close>

record session =
  queries :: nat
  cancels :: "string option list"
  naps :: "Duration list"

definition fresh :: session where
  "fresh = \<lparr>queries = 0, cancels = [], naps = []\<rparr>"

definition GetCurrentBulkQuery ::
  "service \<Rightarrow> session \<Rightarrow> (CurrentBulkOperation \<times> error option) \<times> session" where
  "GetCurrentBulkQuery svc s =
     (case currentOp svc (queries s) of
        Inl err \<Rightarrow> ((zeroOperation, Some err), s\<lparr>queries := Suc (queries s)\<rparr>)
      | Inr q \<Rightarrow> ((q, None), s\<lparr>queries := Suc (queries s)\<rparr>))"

definition inflight :: "string \<Rightarrow> bool" where
  "inflight st \<longleftrightarrow> st = ''CREATED'' \<or> st = ''RUNNING'' \<or> st = ''CANCELING''"

text \<open>
  The polling loop of \<^verbatim>\<open>WaitForCurrentBulkQuery\<close>.  It runs for as long as the service
  reports an in-flight status, so it need not return: \<open>None\<close> is the run that polls forever.
\<close>

partial_function (option) waitLoop ::
  "service \<Rightarrow> Duration \<Rightarrow> CurrentBulkOperation \<Rightarrow> session
     \<Rightarrow> ((CurrentBulkOperation \<times> error option) \<times> session) option" where
  "waitLoop svc interval q s =
     (if inflight (Status q) then
        (case GetCurrentBulkQuery svc (s\<lparr>naps := naps s @ [interval]\<rparr>) of
           ((q', Some err), s') \<Rightarrow>
              Some ((q', Some (Errorf (''CurrentBulkOperation query error: '' @ Error err))), s')
         | ((q', None), s') \<Rightarrow> waitLoop svc interval q' s')
      else Some ((q, None), s))"

definition WaitForCurrentBulkQuery ::
  "service \<Rightarrow> Duration \<Rightarrow> session \<Rightarrow> ((CurrentBulkOperation \<times> error option) \<times> session) option" where
  "WaitForCurrentBulkQuery svc interval s =
     (case GetCurrentBulkQuery svc s of
        ((q, Some err), s') \<Rightarrow>
           Some ((q, Some (Errorf (''CurrentBulkOperation query error: '' @ Error err))), s')
      | ((q, None), s') \<Rightarrow> waitLoop svc interval q s')"

text \<open>\<^verbatim>\<open>%v\<close> of a \<^verbatim>\<open>graphql.ID\<close>.\<close>

definition showID :: "string option \<Rightarrow> string" where
  "showID i = (case i of None \<Rightarrow> ''<nil>'' | Some s \<Rightarrow> s)"

text \<open>
  \<^verbatim>\<open>ShouldGetBulkQueryResultURL\<close>.  The error returned by the wait is not inspected: it is
  overwritten by the status check, or returned as it is by the later \<^verbatim>\<open>return\<close>s.
\<close>

definition ShouldGetBulkQueryResultURL ::
  "service \<Rightarrow> string option \<Rightarrow> session \<Rightarrow> ((string \<times> error option) \<times> session) option" where
  "ShouldGetBulkQueryResultURL svc ident s =
     (case GetCurrentBulkQuery svc s of
        ((q, Some err), s1) \<Rightarrow> Some (([], Some err), s1)
      | ((q, None), s1) \<Rightarrow>
          if ident \<noteq> None \<and> ID q \<noteq> ident then
            Some (([], Some (Errorf (''Bulk operation ID doesn't match, got='' @ showID (ID q)
                                      @ '', want='' @ showID ident))), s1)
          else
            (case WaitForCurrentBulkQuery svc Second s1 of
               None \<Rightarrow> None
             | Some ((q', err), s2) \<Rightarrow>
                 if Status q' \<noteq> ''COMPLETED'' then
                   Some (([], Some (Errorf (''Bulk operation didn't complete, status='' @ Status q'
                                             @ '', error_code='' @ ErrorCode q'))), s2)
                 else if ErrorCode q' \<noteq> [] then
                   Some (([], Some (Errorf (''Bulk operation error: '' @ ErrorCode q'))), s2)
                 else if ObjectCount q' = ''0'' then Some (([], err), s2)
                 else Some ((URL q', err), s2)))"

definition GetCurrentBulkQueryResultURL ::
  "service \<Rightarrow> session \<Rightarrow> ((string \<times> error option) \<times> session) option" where
  "GetCurrentBulkQueryResultURL svc s = ShouldGetBulkQueryResultURL svc None s"

text \<open>
  The loop that follows the cancel mutation: it polls without sleeping until the status
  is no longer in flight.
\<close>

partial_function (option) cancelLoop ::
  "service \<Rightarrow> CurrentBulkOperation \<Rightarrow> session \<Rightarrow> (error option \<times> session) option" where
  "cancelLoop svc q s =
     (if inflight (Status q) then
        (case GetCurrentBulkQuery svc s of
           ((q', Some err), s') \<Rightarrow> Some (Some err, s')
         | ((q', None), s') \<Rightarrow> cancelLoop svc q' s')
      else Some (None, s))"

text \<open>\<^verbatim>\<open>%+v\<close> of the user errors of a mutation (their text is what the service sent).\<close>

definition showUserErrors :: "string list \<Rightarrow> string" where
  "showUserErrors es = ''['' @ concat (map (\<lambda>e. e @ '' '') (butlast es)) @ (if es = [] then [] else last es) @ '']''"

definition CancelRunningBulkQuery :: "service \<Rightarrow> session \<Rightarrow> (error option \<times> session) option" where
  "CancelRunningBulkQuery svc s =
     (case GetCurrentBulkQuery svc s of
        ((q, Some err), s1) \<Rightarrow> Some (Some err, s1)
      | ((q, None), s1) \<Rightarrow>
          if Status q = ''CREATED'' \<or> Status q = ''RUNNING'' then
            (let s2 = s1\<lparr>cancels := cancels s1 @ [ID q]\<rparr> in
             case cancelReply svc (ID q) of
               Inl err \<Rightarrow> Some (Some err, s2)
             | Inr userErrors \<Rightarrow>
                 if length userErrors > 0 then Some (Some (Errorf (showUserErrors userErrors)), s2)
                 else
                   (case GetCurrentBulkQuery svc s2 of
                      ((q', Some err), s3) \<Rightarrow> Some (Some err, s3)
                    | ((q', None), s3) \<Rightarrow> cancelLoop svc q' s3))
          else Some (None, s1))"


text \<open>
  What it means for \<^verbatim>\<open>WaitForCurrentBulkQuery\<close>, started in session \<open>s\<close>, to hand back the
  snapshot \<open>q\<close> and the error \<open>err\<close> in session \<open>s'\<close>: it has sent at least one status
  query; the reply to the last one is what it hands back (the snapshot itself, or the zero
  snapshot with the wrapped error when that query failed); and every earlier reply was a
  snapshot with an in-flight status.
\<close>

definition polled ::
  "service \<Rightarrow> session \<Rightarrow> CurrentBulkOperation \<Rightarrow> error option \<Rightarrow> session \<Rightarrow> bool" where
  "polled svc s q err s' \<longleftrightarrow>
     queries s < queries s' \<and>
     (case currentOp svc (queries s' - 1) of
        Inr p \<Rightarrow> q = p \<and> err = None
      | Inl e \<Rightarrow> q = zeroOperation \<and>
                 err = Some (Errorf (''CurrentBulkOperation query error: '' @ Error e))) \<and>
     (\<forall>n. queries s \<le> n \<and> n < queries s' - 1 \<longrightarrow>
          (\<exists>p. currentOp svc n = Inr p \<and> inflight (Status p)))"

definition waitLoop_post ::
  "service \<Rightarrow> CurrentBulkOperation \<Rightarrow> session
     \<Rightarrow> (CurrentBulkOperation \<times> error option) \<times> session \<Rightarrow> bool" where
  "waitLoop_post svc q s y \<longleftrightarrow>
     (case y of ((q', err), s') \<Rightarrow>
        \<not> inflight (Status q') \<and>
        (if inflight (Status q) then polled svc s q' err s' else q' = q \<and> err = None \<and> s' = s))"

text \<open>
  A service used to run the controller on: the job is \<^verbatim>\<open>RUNNING\<close> for the first three
  status queries and \<^verbatim>\<open>COMPLETED\<close>, with no objects, from then on.
\<close>

definition exampleService :: service where
  "exampleService =
     \<lparr>currentOp = (\<lambda>n. Inr (zeroOperation\<lparr>Status := (if n < 3 then ''RUNNING'' else ''COMPLETED''),
                                             ObjectCount := ''0''\<rparr>)),
      cancelReply = (\<lambda>i. Inr [])\<rparr>"


section \<open>Type resolver\<close>

text \<open>
  \<^verbatim>\<open>gidRegex\<close> is \<^verbatim>\<open>^gid://shopify/(\w+)/\d+$\<close>.  A word character is an ASCII letter, a digit
  or the underscore; \<^verbatim>\<open>$\<close> matches at the end of the text only.  No word character is a
  slash, so a match is unique: the resource is the longest run of word characters after
  the prefix.  \<^verbatim>\<open>FindStringSubmatch\<close> returns the whole match and the group, or \<^verbatim>\<open>nil\<close>.
\<close>

definition isDigit :: "char \<Rightarrow> bool" where
  "isDigit c \<longleftrightarrow> c \<in> set ''0123456789''"

definition isWord :: "char \<Rightarrow> bool" where
  "isWord c \<longleftrightarrow> isDigit c \<or> c = CHR ''_''
     \<or> c \<in> set ''abcdefghijklmnopqrstuvwxyz'' \<or> c \<in> set ''ABCDEFGHIJKLMNOPQRSTUVWXYZ''"

definition FindStringSubmatch :: "string \<Rightarrow> string list" where
  "FindStringSubmatch gid =
     (if take 14 gid = ''gid://shopify/'' then
        (let resource = takeWhile isWord (drop 14 gid);
             rest = dropWhile isWord (drop 14 gid)
         in if resource \<noteq> [] \<and> rest \<noteq> [] \<and> hd rest = CHR ''/''
               \<and> tl rest \<noteq> [] \<and> list_all isDigit (tl rest)
            then [gid, resource] else [])
      else [])"

text \<open>
  \<^verbatim>\<open>concludeObjectType\<close>: the record type of a child (by name) and the name of the field of
  the parent that collects such children.
\<close>

definition concludeObjectType :: "string \<Rightarrow> error + (string \<times> string)" where
  "concludeObjectType gid =
     (let submatches = FindStringSubmatch gid in
      if length submatches \<noteq> 2 then Inl (Errorf (''malformed gid=`'' @ gid @ ''`''))
      else
        (let resource = submatches ! 1 in
         if resource = ''LineItem'' then Inr (''LineItem'', resource @ ''s'')
         else if resource = ''FulfillmentOrderLineItem'' then
           Inr (''FulfillmentOrderLineItem'', resource @ ''s'')
         else if resource = ''Metafield'' then Inr (''Metafield'', resource @ ''s'')
         else if resource = ''Order'' then Inr (''Order'', resource @ ''s'')
         else if resource = ''Product'' then Inr (''ProductBulkResult'', resource @ ''s'')
         else if resource = ''ProductVariant'' then Inr (''ProductVariant'', resource @ ''s'')
         else if resource = ''Collection'' then Inr (''Collection'', resource @ ''s'')
         else if resource = ''ProductImage'' then Inr (''ProductImage'', resource @ ''s'')
         else Inl (Errorf (''`'' @ resource @ ''` not implemented type''))))"


section \<open>Reconciliation parser\<close>

text \<open>
  Go values as reflection sees them.  A struct value carries its type's name and its
  fields (promoted fields of embedded structs included), each with its declared type:
  a string, an interface (such as \<^verbatim>\<open>graphql.ID\<close>), a slice of a named record type, or some
  other type.  \<open>VNil\<close> is a nil interface, pointer or slice; \<open>VOther z s\<close> is a value of
  another kind, \<open>z\<close> telling whether it is the zero value of its type.
\<close>

datatype gtype = TString | TInterface | TSlice string | TOther string

datatype gval =
    VString string
  | VNil
  | VOther bool string
  | VSlice string "gval list"
  | VStruct string "(string \<times> gtype \<times> gval) list"

fun IsZero :: "gval \<Rightarrow> bool" where
  "IsZero (VString s) = (s = [])"
| "IsZero VNil = True"
| "IsZero (VOther z s) = z"
| "IsZero (VSlice t xs) = False"
| "IsZero (VStruct n fs) = (\<forall>x \<in> set fs. IsZero (snd (snd x)))"

text \<open>
  \<^verbatim>\<open>Value.IsZero\<close> of a field: a field of interface type is zero when it holds nil, whatever
  the value inside would be.
\<close>

definition fieldIsZero :: "gtype \<Rightarrow> gval \<Rightarrow> bool" where
  "fieldIsZero t v = (if t = TInterface then v = VNil else IsZero v)"

text \<open>
  The two calls made on \<^verbatim>\<open>jsoniter.ConfigFastest\<close>.  \<open>Get line key\<close> is
  \<^verbatim>\<open>json.Get(line, key)\<close>: \<open>None\<close> when its \<^verbatim>\<open>LastError()\<close> is not nil, and \<^verbatim>\<open>ToString()\<close> of the
  member otherwise.  \<open>Unmarshal line T\<close> decodes the line into a new value of the type named
  \<open>T\<close>.  The parser takes the library as a parameter.
\<close>

record jsoniter =
  Get :: "string \<Rightarrow> string \<Rightarrow> string option"
  Unmarshal :: "string \<Rightarrow> string \<Rightarrow> error + gval"

text \<open>
  A \<^verbatim>\<open>bufio.Reader\<close> on the result file: the bytes not read yet, and the error it reports
  once they run out (\<^verbatim>\<open>io.EOF\<close>, or a failure of the underlying read).
\<close>

record reader =
  pending :: string
  ending :: error

fun splitLine :: "string \<Rightarrow> (string \<times> string) option" where
  "splitLine [] = None"
| "splitLine (c # cs) =
     (if c = CHR 0x0A then Some ([c], cs)
      else (case splitLine cs of None \<Rightarrow> None | Some (line, rest) \<Rightarrow> Some (c # line, rest)))"

text \<open>
  \<^verbatim>\<open>reader.ReadBytes('\n')\<close>: the bytes up to and including the first newline; when there
  is no newline left, the remaining bytes together with the error.
\<close>

definition ReadBytes :: "reader \<Rightarrow> (string \<times> error option) \<times> reader" where
  "ReadBytes r =
     (case splitLine (pending r) of
        Some (line, rest) \<Rightarrow> ((line, None), r\<lparr>pending := rest\<rparr>)
      | None \<Rightarrow> ((pending r, Some (ending r)), r\<lparr>pending := []\<rparr>))"

lemma splitLine_shorter: "splitLine s = Some (line, rest) \<Longrightarrow> length rest < length s"
  by (induction s arbitrary: line rest) (auto split: if_splits option.splits)

lemma ReadBytes_shorter:
  "ReadBytes r = ((line, None), r') \<Longrightarrow> length (pending r') < length (pending r)"
  by (auto simp: ReadBytes_def split: option.splits dest: splitLine_shorter)

text \<open>
  \<^verbatim>\<open>childrenLookup\<close>: for each parent reference, for each field name, the slice of children
  collected so far, with the name of its element type.  Both maps are kept as association
  lists in order of first insertion.
\<close>

type_synonym children = "(string \<times> string \<times> gval list) list"

type_synonym lookup = "(string \<times> children) list"

text \<open>
  The body of the read loop on one line.  It either returns an error, leaving everything
  as it was, or goes on with the new \<^verbatim>\<open>childrenLookup\<close> and \<^verbatim>\<open>outSlice\<close>.
\<close>

definition step ::
  "jsoniter \<Rightarrow> string \<Rightarrow> string \<Rightarrow> lookup \<Rightarrow> gval list \<Rightarrow> error + (lookup \<times> gval list)" where
  "step json itemType line childrenLookup outSlice =
     (case Get json line ''__parentId'' of
        Some parentID \<Rightarrow>
          (case Get json line ''id'' of
             None \<Rightarrow> Inl (Errorf ''Connection type must query `id` field'')
           | Some gid \<Rightarrow>
               (case concludeObjectType gid of
                  Inl err \<Rightarrow> Inl err
                | Inr (childObjType, childrenFieldName) \<Rightarrow>
                    (case Unmarshal json line childObjType of
                       Inl err \<Rightarrow> Inl err
                     | Inr childItemVal \<Rightarrow>
                         (let children = (case map_of childrenLookup parentID of
                                            Some val \<Rightarrow> val | None \<Rightarrow> []);
                              childrenSlice = (case map_of children childrenFieldName of
                                                 Some val \<Rightarrow> snd val | None \<Rightarrow> [])
                          in Inr (AList.update parentID
                                    (AList.update childrenFieldName
                                       (childObjType, childrenSlice @ [childItemVal]) children)
                                    childrenLookup,
                                  outSlice)))))
      | None \<Rightarrow>
          (case Unmarshal json line itemType of
             Inl err \<Rightarrow> Inl err
           | Inr item \<Rightarrow> Inr (childrenLookup, outSlice @ [item])))"

text \<open>
  How the read loop ends: by a \<^verbatim>\<open>return\<close> of an error from inside the loop, or by the
  \<^verbatim>\<open>break\<close> on a read error, with the accumulated \<^verbatim>\<open>childrenLookup\<close>.  Both come with the
  contents of \<^verbatim>\<open>outSlice\<close> at that moment.
\<close>

datatype outcome = Return error "gval list" | Break error lookup "gval list"

function readLoop :: "jsoniter \<Rightarrow> string \<Rightarrow> reader \<Rightarrow> lookup \<Rightarrow> gval list \<Rightarrow> outcome" where
  "readLoop json itemType rd childrenLookup outSlice =
     (case ReadBytes rd of
        ((line, Some err), rd') \<Rightarrow> Break err childrenLookup outSlice
      | ((line, None), rd') \<Rightarrow>
          (case step json itemType line childrenLookup outSlice of
             Inl err \<Rightarrow> Return err outSlice
           | Inr (childrenLookup', outSlice') \<Rightarrow>
               readLoop json itemType rd' childrenLookup' outSlice'))"
  by pat_completeness auto
termination
  by (relation "measure (\<lambda>(json, itemType, rd, childrenLookup, outSlice). length (pending rd))")
     (auto dest: ReadBytes_shorter[OF sym])

declare readLoop.simps [simp del]

text \<open>
  The inner loop of the reconciliation: each collected slice is assigned to the field of
  the parent with that name.  \<^verbatim>\<open>FieldByName\<close> finds no field: the error of line 599.
  \<^verbatim>\<open>field.Set\<close> panics unless the slice is assignable to the field's type.  Go leaves the
  order of \<^verbatim>\<open>MapRange\<close> open; the model takes the order of insertion.
\<close>

fun setFields :: "children \<Rightarrow> string \<Rightarrow> (string \<times> gtype \<times> gval) list
    \<Rightarrow> error option \<times> (string \<times> gtype \<times> gval) list" where
  "setFields [] parentType flds = (None, flds)"
| "setFields ((k, (T, v)) # rest) parentType flds =
     (case map_of flds k of
        None \<Rightarrow> (Some (Errorf (''Field '' @ [CHR 0x27] @ k @ [CHR 0x27]
                                @ '' not defined on the parent type '' @ parentType)), flds)
      | Some (t, old) \<Rightarrow>
          if t = TSlice T \<or> t = TInterface
          then setFields rest parentType (AList.update k (t, VSlice T v) flds)
          else (Some (Panic ''reflect.Set: value is not assignable to the field''), flds))"

text \<open>
  The body of the outer loop on one element of \<^verbatim>\<open>outSlice\<close>.  \<^verbatim>\<open>FieldByName("ID")\<close> panics on
  a value that is not a struct, \<^verbatim>\<open>IsZero\<close> panics when the struct has no such field, and the
  type assertion \<^verbatim>\<open>.(string)\<close> panics unless the field holds a plain string.
\<close>

definition attach :: "lookup \<Rightarrow> gval \<Rightarrow> error option \<times> gval" where
  "attach childrenLookup parent =
     (case parent of
        VStruct parentType flds \<Rightarrow>
          (case map_of flds ''ID'' of
             None \<Rightarrow> (Some (Panic ''reflect: call of reflect.Value.IsZero on zero Value''), parent)
           | Some (t, v) \<Rightarrow>
               if fieldIsZero t v then (Some (Errorf ''No ID field on the first level''), parent)
               else
                 (case v of
                    VString parentID \<Rightarrow>
                      if t = TString \<or> t = TInterface then
                        (case map_of childrenLookup parentID of
                           Some children \<Rightarrow>
                             (case setFields children parentType flds of
                                (err, flds') \<Rightarrow> (err, VStruct parentType flds'))
                         | None \<Rightarrow> (None, parent))
                      else (Some (Panic ''interface conversion: interface {} is not string''), parent)
                  | _ \<Rightarrow> (Some (Panic ''interface conversion: interface {} is not string''), parent)))
      | _ \<Rightarrow> (Some (Panic ''reflect: call of reflect.Value.FieldByName on non-struct Value''), parent))"

fun reconcile :: "lookup \<Rightarrow> gval list \<Rightarrow> error option \<times> gval list" where
  "reconcile childrenLookup [] = (None, [])"
| "reconcile childrenLookup (parent # rest) =
     (case attach childrenLookup parent of
        (Some err, parent') \<Rightarrow> (Some err, parent' # rest)
      | (None, parent') \<Rightarrow>
          (case reconcile childrenLookup rest of (err, rest') \<Rightarrow> (err, parent' # rest')))"

text \<open>
  The argument \<^verbatim>\<open>out\<close>: a nil interface, something that is not a pointer, a pointer to
  something that is not a slice, or a pointer to a slice.  For a slice: whether its
  elements are pointers, the name of the record type, and its elements.  An element that
  is a pointer is modelled by the record it points to.
\<close>

datatype destination =
    NilInterface
  | NonPointer
  | PtrToNonSlice
  | PtrToSlice bool string "gval list"

text \<open>
  \<^verbatim>\<open>parseBulkQueryResult\<close>.  \<open>fs\<close> is the file system: what \<^verbatim>\<open>os.Open\<close> gives for a name.  The
  records are appended to the caller's slice as they are read, so the result is the error
  together with what the destination holds when the call ends.
\<close>

definition parseBulkQueryResult ::
  "jsoniter \<Rightarrow> (string \<Rightarrow> error + reader) \<Rightarrow> string \<Rightarrow> destination \<Rightarrow> error option \<times> destination" where
  "parseBulkQueryResult json fs resultFile out =
     (case out of
        NilInterface \<Rightarrow> (Some (Panic ''invalid memory address or nil pointer dereference''), out)
      | NonPointer \<Rightarrow> (Some (Errorf ''the out arg is not a pointer''), out)
      | PtrToNonSlice \<Rightarrow> (Some (Errorf ''the out arg is not a pointer to a slice interface''), out)
      | PtrToSlice isPtr itemType outSlice \<Rightarrow>
          (case fs resultFile of
             Inl err \<Rightarrow> (Some err, out)
           | Inr f \<Rightarrow>
               (case readLoop json itemType f [] outSlice of
                  Return err outSlice' \<Rightarrow> (Some err, PtrToSlice isPtr itemType outSlice')
                | Break err childrenLookup outSlice' \<Rightarrow>
                    (case (if length childrenLookup > 0 then reconcile childrenLookup outSlice'
                           else (None, outSlice'))
                     of (Some err', outSlice'') \<Rightarrow> (Some err', PtrToSlice isPtr itemType outSlice'')
                      | (None, outSlice'') \<Rightarrow>
                          if err \<noteq> EOF then (Some err, PtrToSlice isPtr itemType outSlice'')
                          else (None, PtrToSlice isPtr itemType outSlice'')))))"

text \<open>A result file made of the given lines, each closed by a newline.\<close>

definition joinLines :: "string list \<Rightarrow> string" where
  "joinLines ls = concat (map (\<lambda>l. l @ [CHR 0x0A]) ls)"


text \<open>
  The loop body run over complete lines, one after the other, as the read loop does while
  \<^verbatim>\<open>ReadBytes\<close> finds a newline: the error of the first line that fails, with \<^verbatim>\<open>outSlice\<close> as
  it was then, or the final \<^verbatim>\<open>childrenLookup\<close> and \<^verbatim>\<open>outSlice\<close>.
\<close>

fun runLines ::
  "jsoniter \<Rightarrow> string \<Rightarrow> string list \<Rightarrow> lookup \<Rightarrow> gval list
     \<Rightarrow> (error \<times> gval list) + (lookup \<times> gval list)" where
  "runLines json itemType [] childrenLookup outSlice = Inr (childrenLookup, outSlice)"
| "runLines json itemType (l # ls) childrenLookup outSlice =
     (case step json itemType (l @ [CHR 0x0A]) childrenLookup outSlice of
        Inl err \<Rightarrow> Inl (err, outSlice)
      | Inr (childrenLookup', outSlice') \<Rightarrow> runLines json itemType ls childrenLookup' outSlice')"


section \<open>What the parser is to compute\<close>

text \<open>
  The global identifier format in the words of the specification,
  \<^verbatim>\<open>scheme://namespace/<ResourceType>/<digits>\<close>: cut at the slashes, an identifier has five
  segments, the scheme with its colon, an empty one, the namespace, the resource type and
  the digits.
\<close>

fun segments :: "string \<Rightarrow> string list" where
  "segments [] = [[]]"
| "segments (c # cs) =
     (if c = CHR ''/'' then [] # segments cs
      else (case segments cs of [] \<Rightarrow> [[c]] | s # ss \<Rightarrow> (c # s) # ss))"

definition spec_gid_form :: "string \<Rightarrow> bool" where
  "spec_gid_form gid =
     (case segments gid of
        [scheme, e, namespace, resourceType, digits] \<Rightarrow>
          scheme \<noteq> [] \<and> last scheme = CHR '':'' \<and> e = [] \<and> namespace \<noteq> []
          \<and> resourceType \<noteq> [] \<and> digits \<noteq> [] \<and> list_all isDigit digits
      | _ \<Rightarrow> False)"

text \<open>The resource-type tags of the resolver's fixed mapping.\<close>

definition knownTags :: "string list" where
  "knownTags = [''LineItem'', ''FulfillmentOrderLineItem'', ''Metafield'', ''Order'', ''Product'',
                ''ProductVariant'', ''Collection'', ''ProductImage'']"

text \<open>
  A line read as a parent record: it has no parent reference and decodes as the item type.
  A line read as a child record: its parent reference, the field it belongs to, and the
  decoded record.
\<close>

definition asParent :: "jsoniter \<Rightarrow> string \<Rightarrow> string \<Rightarrow> gval option" where
  "asParent json itemType l =
     (case Get json (l @ [CHR 0x0A]) ''__parentId'' of
        Some parentID \<Rightarrow> None
      | None \<Rightarrow> (case Unmarshal json (l @ [CHR 0x0A]) itemType of
                   Inl err \<Rightarrow> None | Inr item \<Rightarrow> Some item))"

definition asChild :: "jsoniter \<Rightarrow> string \<Rightarrow> (string \<times> string \<times> gval) option" where
  "asChild json l =
     (case Get json (l @ [CHR 0x0A]) ''__parentId'' of
        None \<Rightarrow> None
      | Some parentID \<Rightarrow>
          (case Get json (l @ [CHR 0x0A]) ''id'' of
             None \<Rightarrow> None
           | Some gid \<Rightarrow>
               (case concludeObjectType gid of
                  Inl err \<Rightarrow> None
                | Inr (childObjType, childrenFieldName) \<Rightarrow>
                    (case Unmarshal json (l @ [CHR 0x0A]) childObjType of
                       Inl err \<Rightarrow> None
                     | Inr child \<Rightarrow> Some (parentID, childrenFieldName, child)))))"

text \<open>The parent records of a stream, and the children of one parent and field, in the
  order in which their lines arrive.\<close>

definition parentsIn :: "jsoniter \<Rightarrow> string \<Rightarrow> string list \<Rightarrow> gval list" where
  "parentsIn json itemType ls = List.map_filter (asParent json itemType) ls"

definition childrenIn :: "jsoniter \<Rightarrow> string list \<Rightarrow> string \<Rightarrow> string \<Rightarrow> gval list" where
  "childrenIn json ls parentID field =
     map (\<lambda>x. snd (snd x))
       (filter (\<lambda>x. fst x = parentID \<and> fst (snd x) = field) (List.map_filter (asChild json) ls))"

text \<open>The element type of the slice collected for a field name.\<close>

definition elemTypeOf :: "string \<Rightarrow> string" where
  "elemTypeOf field = (if field = ''Products'' then ''ProductBulkResult'' else butlast field)"

definition FieldByName :: "gval \<Rightarrow> string \<Rightarrow> (gtype \<times> gval) option" where
  "FieldByName v k = (case v of VStruct n flds \<Rightarrow> map_of flds k | _ \<Rightarrow> None)"

text \<open>
  The identifier under which the reconciliation looks a record up: the string in its
  \<^verbatim>\<open>ID\<close> field, when the record is a struct whose \<^verbatim>\<open>ID\<close> field is not zero and holds a plain
  string.
\<close>

definition keyOf :: "gval \<Rightarrow> string option" where
  "keyOf v =
     (case FieldByName v ''ID'' of
        Some (t, VString s) \<Rightarrow>
          if (t = TString \<or> t = TInterface) \<and> \<not> fieldIsZero t (VString s) then Some s else None
      | _ \<Rightarrow> None)"


text \<open>
  A parent has a field for the children collected under a field name: the field exists
  and the slice can be assigned to it.
\<close>

definition fitsField :: "gval \<Rightarrow> string \<Rightarrow> bool" where
  "fitsField parent field =
     (case FieldByName parent field of
        None \<Rightarrow> False
      | Some (t, old) \<Rightarrow> t = TSlice (elemTypeOf field) \<or> t = TInterface)"

text \<open>
  What the output record \<open>parent'\<close> is to hold in a field, given the record \<open>parent\<close> decoded
  from the parent's line: the children of that parent and field in the stream, in the
  order of their lines, as a slice; and what the parent's line gave, when the stream has
  no such children.
\<close>

definition nested :: "jsoniter \<Rightarrow> string list \<Rightarrow> gval \<Rightarrow> gval \<Rightarrow> string \<Rightarrow> bool" where
  "nested json ls parent parent' field =
     (case keyOf parent of
        None \<Rightarrow> FieldByName parent' field = FieldByName parent field
      | Some parentID \<Rightarrow>
          (case childrenIn json ls parentID field of
             [] \<Rightarrow> FieldByName parent' field = FieldByName parent field
           | c # cs \<Rightarrow>
               (case FieldByName parent field of
                  None \<Rightarrow> False
                | Some (t, old) \<Rightarrow>
                    FieldByName parent' field = Some (t, VSlice (elemTypeOf field) (c # cs)))))"


text \<open>
  The children collected in \<^verbatim>\<open>childrenLookup\<close> for a parent reference and a field name, and
  the invariant of the read loop: after the lines \<open>ls\<close>, the slice collected for a parent
  and a field holds the children of that parent and field in \<open>ls\<close>, in their order; the
  inner maps are not empty, have each field once, and their slices are not empty and have
  the element type that goes with the field.
\<close>

definition slots :: "lookup \<Rightarrow> string \<Rightarrow> string \<Rightarrow> gval list" where
  "slots lk parentID field =
     (case map_of lk parentID of
        None \<Rightarrow> []
      | Some ch \<Rightarrow> (case map_of ch field of None \<Rightarrow> [] | Some v \<Rightarrow> snd v))"

definition collected :: "jsoniter \<Rightarrow> string list \<Rightarrow> lookup \<Rightarrow> bool" where
  "collected json ls lk \<longleftrightarrow>
     (\<forall>parentID field. slots lk parentID field = childrenIn json ls parentID field) \<and>
     (\<forall>parentID ch. map_of lk parentID = Some ch \<longrightarrow>
        ch \<noteq> [] \<and> distinct (map fst ch) \<and>
        (\<forall>field T cs. map_of ch field = Some (T, cs) \<longrightarrow> T = elemTypeOf field \<and> cs \<noteq> []))"



section \<open>A decoder to run the parser on\<close>

text \<open>
  A JSON decoder for the lines used below: objects whose members are all strings, written
  without white space and without escapes, optionally followed by a newline.  Any other
  line is refused.  A record type is described by its fields: name, JSON key and type.
\<close>

datatype scan = Open | First | Key | InKey | Colon | Val | InVal | Next | Closed | Bad

fun lex :: "scan \<times> string \<times> string \<times> (string \<times> string) list \<Rightarrow> char
    \<Rightarrow> scan \<times> string \<times> string \<times> (string \<times> string) list" where
  "lex (Open, k, b, m) c = (if c = CHR ''{'' then (First, k, b, m) else (Bad, k, b, m))"
| "lex (First, k, b, m) c =
     (if c = CHR 0x22 then (InKey, k, [], m) else if c = CHR ''}'' then (Closed, k, b, m)
      else (Bad, k, b, m))"
| "lex (Key, k, b, m) c = (if c = CHR 0x22 then (InKey, k, [], m) else (Bad, k, b, m))"
| "lex (InKey, k, b, m) c =
     (if c = CHR 0x22 then (Colon, b, [], m) else if c = CHR 0x5C then (Bad, k, b, m)
      else (InKey, k, b @ [c], m))"
| "lex (Colon, k, b, m) c = (if c = CHR '':'' then (Val, k, b, m) else (Bad, k, b, m))"
| "lex (Val, k, b, m) c = (if c = CHR 0x22 then (InVal, k, [], m) else (Bad, k, b, m))"
| "lex (InVal, k, b, m) c =
     (if c = CHR 0x22 then (Next, k, [], m @ [(k, b)]) else if c = CHR 0x5C then (Bad, k, b, m)
      else (InVal, k, b @ [c], m))"
| "lex (Next, k, b, m) c =
     (if c = CHR '','' then (Key, k, b, m) else if c = CHR ''}'' then (Closed, k, b, m)
      else (Bad, k, b, m))"
| "lex (Closed, k, b, m) c = (if c = CHR 0x0A then (Closed, k, b, m) else (Bad, k, b, m))"
| "lex (Bad, k, b, m) c = (Bad, k, b, m)"

definition flatObject :: "string \<Rightarrow> (string \<times> string) list option" where
  "flatObject line =
     (case foldl lex (Open, [], [], []) line of
        (Closed, k, b, m) \<Rightarrow> if distinct (map fst m) then Some m else None
      | _ \<Rightarrow> None)"

definition zeroOf :: "gtype \<Rightarrow> gval" where
  "zeroOf t = (case t of TString \<Rightarrow> VString [] | TOther n \<Rightarrow> VOther True [] | _ \<Rightarrow> VNil)"

fun fill :: "(string \<times> string) list \<Rightarrow> (string \<times> string \<times> gtype) list
    \<Rightarrow> error + (string \<times> gtype \<times> gval) list" where
  "fill m [] = Inr []"
| "fill m ((field, key, t) # rest) =
     (case fill m rest of
        Inl err \<Rightarrow> Inl err
      | Inr fs \<Rightarrow>
          (case map_of m key of
             None \<Rightarrow> Inr ((field, t, zeroOf t) # fs)
           | Some s \<Rightarrow>
               if t = TString \<or> t = TInterface then Inr ((field, t, VString s) # fs)
               else Inl (LibError ''cannot unmarshal string'')))"

definition flatJSON :: "(string \<Rightarrow> (string \<times> string \<times> gtype) list) \<Rightarrow> jsoniter" where
  "flatJSON schema =
     \<lparr>Get = (\<lambda>line key. case flatObject line of None \<Rightarrow> None | Some m \<Rightarrow> map_of m key),
      Unmarshal = (\<lambda>line T. case flatObject line of
                              None \<Rightarrow> Inl (LibError ''invalid JSON'')
                            | Some m \<Rightarrow> map_sum id (VStruct T) (fill m (schema T)))\<rparr>"

definition shop :: "string \<Rightarrow> (string \<times> string \<times> gtype) list" where
  "shop T =
     (if T = ''Order'' then
        [(''ID'', ''id'', TInterface), (''Name'', ''name'', TString),
         (''LineItems'', ''lineItems'', TSlice ''LineItem''),
         (''Metafields'', ''metafields'', TSlice ''Metafield'')]
      else if T = ''LineItem'' then [(''ID'', ''id'', TInterface), (''Title'', ''title'', TString)]
      else if T = ''Metafield'' then [(''ID'', ''id'', TInterface), (''Key'', ''key'', TString)]
      else [])"

definition onDisk :: "string \<Rightarrow> string \<Rightarrow> error + reader" where
  "onDisk bytes name = Inr \<lparr>pending = bytes, ending = EOF\<rparr>"

text \<open>Lines of result files: two orders, line items and a metafield of theirs.\<close>

definition orderOne :: string where
  \<open>orderOne = ''{"id":"gid://x/Order/1","name":"#1001"}''\<close>

definition orderTwo :: string where
  \<open>orderTwo = ''{"id":"gid://x/Order/2","name":"#1002"}''\<close>

definition hat :: string where
  \<open>hat = ''{"id":"gid://shopify/LineItem/11","title":"hat","__parentId":"gid://x/Order/1"}''\<close>

definition coat :: string where
  \<open>coat = ''{"id":"gid://shopify/LineItem/12","title":"coat","__parentId":"gid://x/Order/1"}''\<close>

definition scarf :: string where
  \<open>scarf = ''{"id":"gid://shopify/LineItem/21","title":"scarf","__parentId":"gid://x/Order/2"}''\<close>

definition gift :: string where
  \<open>gift = ''{"id":"gid://shopify/Metafield/5","key":"gift","__parentId":"gid://x/Order/1"}''\<close>

text \<open>
  Children that are not in order: one whose identifier lacks the numeric segment, one
  whose resource type the resolver does not know, and one whose parent is not in the file.
\<close>

definition shortChild :: string where
  \<open>shortChild = ''{"id":"gid://shopify/LineItem","title":"hat","__parentId":"gid://x/Order/1"}''\<close>

definition customerChild :: string where
  \<open>customerChild = ''{"id":"gid://shopify/Customer/7","__parentId":"gid://x/Order/1"}''\<close>

definition strayChild :: string where
  \<open>strayChild = ''{"id":"gid://shopify/LineItem/31","title":"cap","__parentId":"gid://x/Order/9"}''\<close>

text \<open>
  Two line items of the first order whose identifiers are in the namespace of the order,
  and a child of the first order that has no identifier.
\<close>

definition xHat :: string where
  \<open>xHat = ''{"id":"gid://x/LineItem/11","title":"hat","__parentId":"gid://x/Order/1"}''\<close>

definition xCoat :: string where
  \<open>xCoat = ''{"id":"gid://x/LineItem/12","title":"coat","__parentId":"gid://x/Order/1"}''\<close>

definition namelessChild :: string where
  \<open>namelessChild = ''{"title":"hat","__parentId":"gid://x/Order/1"}''\<close>

text \<open>The records that the two order lines decode to.\<close>

definition orderOneRecord :: gval where
  "orderOneRecord = VStruct ''Order''
     [(''ID'', TInterface, VString ''gid://x/Order/1''), (''Name'', TString, VString ''#1001''),
      (''LineItems'', TSlice ''LineItem'', VNil), (''Metafields'', TSlice ''Metafield'', VNil)]"

definition orderTwoRecord :: gval where
  "orderTwoRecord = VStruct ''Order''
     [(''ID'', TInterface, VString ''gid://x/Order/2''), (''Name'', TString, VString ''#1002''),
      (''LineItems'', TSlice ''LineItem'', VNil), (''Metafields'', TSlice ''Metafield'', VNil)]"



text \<open>The records that the child lines decode to.\<close>

definition hatRecord :: gval where
  "hatRecord = VStruct ''LineItem''
     [(''ID'', TInterface, VString ''gid://shopify/LineItem/11''), (''Title'', TString, VString ''hat'')]"

definition coatRecord :: gval where
  "coatRecord = VStruct ''LineItem''
     [(''ID'', TInterface, VString ''gid://shopify/LineItem/12''), (''Title'', TString, VString ''coat'')]"

definition scarfRecord :: gval where
  "scarfRecord = VStruct ''LineItem''
     [(''ID'', TInterface, VString ''gid://shopify/LineItem/21''), (''Title'', TString, VString ''scarf'')]"

definition giftRecord :: gval where
  "giftRecord = VStruct ''Metafield''
     [(''ID'', TInterface, VString ''gid://shopify/Metafield/5''), (''Key'', TString, VString ''gift'')]"


section \<open>Properties of the transport\<close>

lemma sint_seconds:
  assumes "0 \<le> sint (n :: 64 word)" and "sint n * 1000000000 < 2 ^ 63"
  shows "sint (n * Second) = sint n * 1000000000"
proof -
  have s: "sint Second = 1000000000" by (simp add: Second_def)
  have "sint (n * Second) = signed_take_bit 63 (sint n * sint Second)"
    by (simp add: sint_word_ariths)
  also have "\<dots> = sint n * 1000000000"
    unfolding s using assms by (intro signed_take_bit_int_eq_self) auto
  finally show ?thesis .
qed

lemma do_slept:
  assumes "encode net query variables = Inr buf" and "post net buf = Inr resp"
    and "StatusCode resp = 200"
    and "Errors (decoded resp) = e # es" and "Message e = ''Throttled''"
    and "Extensions (decoded resp) = Some x" and "Cost x = Some c"
  shows "slept (snd (do fl net query variables w)) =
           slept w @
           (if flt fl (CurrentlyAvailable (ThrottleStatus c)) (RequestedQueryCost c)
            then [toInt64 fl (timeSleep fl c) * Second] else [])"
  using assms
  by (simp add: do_def backoff_def timeSleep_def Let_def split: option.splits)

text \<open>
  On the exact arithmetic the machine's delay is the delay of the specification, as long
  as it fits 64 bits.
\<close>

lemma exact_delay:
  assumes "- (2 ^ 63) \<le> spec_delay (\<lambda>x. x) c" and "spec_delay (\<lambda>x. x) c < 2 ^ 63"
  shows "sint (toInt64 exact (timeSleep exact c)) = spec_delay (\<lambda>x. x) c"
proof -
  have "toInt64 exact (timeSleep exact c) = word_of_int (spec_delay (\<lambda>x. x) c)"
    by (simp add: exact_def timeSleep_def spec_delay_def)
  moreover have "sint (word_of_int (spec_delay (\<lambda>x. x) c) :: 64 word) = spec_delay (\<lambda>x. x) c"
    unfolding sint_sbintrunc' using assms by (intro signed_take_bit_int_eq_self) auto
  ultimately show ?thesis by simp
qed

text \<open>
  So on the exact arithmetic a throttled reply with a positive restore rate makes \<^verbatim>\<open>do\<close>
  sleep for the delay of the specification, whatever the costs, as long as the delay fits.
\<close>

lemma do_exact_asleep:
  assumes "encode net query variables = Inr buf" and "post net buf = Inr resp"
    and "StatusCode resp = 200"
    and "Errors (decoded resp) = e # es" and "Message e = ''Throttled''"
    and "Extensions (decoded resp) = Some x" and "Cost x = Some c"
    and rate: "0 < RestoreRate (ThrottleStatus c)"
    and fits: "spec_delay (\<lambda>x. x) c * 1000000000 < 2 ^ 63"
  shows "asleep (snd (do exact net query variables w))
           = asleep w + max 0 (spec_delay (\<lambda>x. x) c) * 1000000000"
proof (cases "CurrentlyAvailable (ThrottleStatus c) < RequestedQueryCost c")
  case True
  with rate have "0 < (RequestedQueryCost c - CurrentlyAvailable (ThrottleStatus c))
        / RestoreRate (ThrottleStatus c)" by simp
  then have pos: "0 < spec_delay (\<lambda>x. x) c" unfolding spec_delay_def by linarith
  with fits have "spec_delay (\<lambda>x. x) c < 2 ^ 63" by linarith
  with pos have m: "sint (toInt64 exact (timeSleep exact c)) = spec_delay (\<lambda>x. x) c"
    by (intro exact_delay) simp_all
  with pos fits have "sint (toInt64 exact (timeSleep exact c) * Second) = spec_delay (\<lambda>x. x) c * 1000000000"
    using sint_seconds[of "toInt64 exact (timeSleep exact c)"] by simp
  moreover from True have "flt exact (CurrentlyAvailable (ThrottleStatus c)) (RequestedQueryCost c)"
    by (simp add: exact_def)
  ultimately show ?thesis using pos do_slept[OF assms(1-7), of exact w]
    by (simp add: asleep_def pause_def)
next
  case False
  with rate have "(RequestedQueryCost c - CurrentlyAvailable (ThrottleStatus c))
        / RestoreRate (ThrottleStatus c) \<le> 0" by (simp add: divide_le_0_iff)
  then have "spec_delay (\<lambda>x. x) c \<le> 0" unfolding spec_delay_def by linarith
  moreover from False have "\<not> flt exact (CurrentlyAvailable (ThrottleStatus c)) (RequestedQueryCost c)"
    by (simp add: exact_def)
  ultimately show ?thesis using do_slept[OF assms(1-7), of exact w]
    by (simp add: asleep_def)
qed




text \<open>
  C5, as the code has it.  For a throttled reply (status 200, first error \<^verbatim>\<open>Throttled\<close>, cost
  envelope present) \<^verbatim>\<open>do\<close> posts the request exactly once, and it returns an error: the
  service-reported errors, unless decoding the body or decoding its \<^verbatim>\<open>data\<close> member into the
  destination failed, in which case it returns that decoding error.
\<close>

theorem do_throttled_returns:
  assumes "encode net query variables = Inr buf" and "post net buf = Inr resp"
    and "StatusCode resp = 200"
    and "Errors (decoded resp) = e # es" and "Message e = ''Throttled''"
    and "Extensions (decoded resp) = Some x" and "Cost x = Some c"
  shows "posts (snd (do fl net query variables w)) = posts w @ [buf]
       \<and> fst (do fl net query variables w) =
           (case decodeErr resp of
              Some err \<Rightarrow> Some err
            | None \<Rightarrow>
               (case Data (decoded resp) of
                  None \<Rightarrow> Some (GraphQLErrors (e # es))
                | Some d \<Rightarrow>
                   (case unmarshal net d of
                      Some err \<Rightarrow> Some err
                    | None \<Rightarrow> Some (GraphQLErrors (e # es)))))"
  using assms
  by (simp add: do_def backoff_def Let_def split: option.splits)

theorem do_throttled_returns_witness:
  "posts (snd (do exact (exampleNet (throttled 10 4 2 None)) ''query'' ''vars'' idle)) = [''queryvars'']
   \<and> fst (do exact (exampleNet (throttled 10 4 2 None)) ''query'' ''vars'' idle) =
       Some (GraphQLErrors [\<lparr>Message = ''Throttled'', Locations = []\<rparr>])"
  using do_throttled_returns[of "exampleNet (throttled 10 4 2 None)" "''query''" "''vars''" "''queryvars''"
      "\<lparr>StatusCode = 200, StatusLine = ''200 OK'', Body = [], decoded = throttled 10 4 2 None, decodeErr = None\<rparr>"
      "\<lparr>Message = ''Throttled'', Locations = []\<rparr>" "[]"
      "\<lparr>Cost = Some \<lparr>RequestedQueryCost = 10, ActualQueryCost = 0,
         ThrottleStatus = \<lparr>MaximumAvailable = 1000, CurrentlyAvailable = 4, RestoreRate = 2\<rparr>\<rparr>\<rparr>"
      "\<lparr>RequestedQueryCost = 10, ActualQueryCost = 0,
         ThrottleStatus = \<lparr>MaximumAvailable = 1000, CurrentlyAvailable = 4, RestoreRate = 2\<rparr>\<rparr>" exact idle]
  by (simp add: exampleNet_def throttled_def idle_def)

text \<open>
  The claim itself fails on a throttled reply whose \<^verbatim>\<open>data\<close> member does not decode into the
  destination: the error returned is the decoder's, not the service's.
\<close>

theorem do_throttled_returns_counterexample:
  "do exact (exampleNet (throttled 10 4 2 (Some ''{}''))) ''query'' ''vars'' idle =
     (Some (LibError ''json: cannot unmarshal''),
      \<lparr>posts = [''queryvars''], slept = [3000000000], dest = None\<rparr>)
   \<and> Some (LibError ''json: cannot unmarshal'')
       \<noteq> Some (GraphQLErrors (Errors (throttled 10 4 2 (Some ''{}''))))"
  by (simp add: do_def backoff_def exampleNet_def throttled_def exact_def idle_def Second_def)


section \<open>Properties of the controller\<close>

lemma GetCurrentBulkQuery_queries:
  "GetCurrentBulkQuery svc s = (r, s') \<Longrightarrow> queries s' = Suc (queries s)"
  by (auto simp: GetCurrentBulkQuery_def split: sum.splits)

lemma inflight_zero: "\<not> inflight (Status zeroOperation)"
  by (simp add: inflight_def zeroOperation_def)

lemma polled_step:
  assumes "currentOp svc (queries s) = Inr p" and "inflight (Status p)"
    and "queries s1 = Suc (queries s)" and "polled svc s1 q' err s'"
  shows "polled svc s q' err s'"
  unfolding polled_def
proof (intro conjI allI impI)
  show "queries s < queries s'" using assms by (simp add: polled_def)
  show "case currentOp svc (queries s' - 1) of
          Inl e \<Rightarrow> q' = zeroOperation \<and> err = Some (Errorf (''CurrentBulkOperation query error: '' @ Error e))
        | Inr p \<Rightarrow> q' = p \<and> err = None"
    using assms(4) by (simp add: polled_def)
  fix n assume n: "queries s \<le> n \<and> n < queries s' - 1"
  show "\<exists>p. currentOp svc n = Inr p \<and> inflight (Status p)"
  proof (cases "n = queries s")
    case True with assms show ?thesis by simp
  next
    case False
    with n assms(3) have "queries s1 \<le> n \<and> n < queries s' - 1" by simp
    with assms(4) show ?thesis by (simp add: polled_def)
  qed
qed

lemma waitLoop_sound:
  assumes "waitLoop svc interval q s = Some y"
  shows "waitLoop_post svc q s y"
proof (rule waitLoop.raw_induct[where P = "\<lambda>svc interval q s y. waitLoop_post svc q s y", OF _ assms], goal_cases)
  case (1 f svc interval q s y)
  show ?case
  proof (cases "inflight (Status q)")
    case False
    with 1(2) show ?thesis by (auto simp: waitLoop_post_def)
  next
    case True
    let ?s1 = "s\<lparr>naps := naps s @ [interval], queries := Suc (queries s)\<rparr>"
    show ?thesis
    proof (cases "currentOp svc (queries s)")
      case (Inl e)
      with True 1(2) show ?thesis
        by (auto simp: GetCurrentBulkQuery_def polled_def inflight_zero waitLoop_post_def)
    next
      case (Inr p)
      with True 1(2) have call: "f svc interval p ?s1 = Some y"
        by (simp add: GetCurrentBulkQuery_def)
      obtain q' err s' where y: "y = ((q', err), s')" by (metis surj_pair)
      from 1(1)[OF call] y have nf: "\<not> inflight (Status q')"
        and rest: "if inflight (Status p) then polled svc ?s1 q' err s'
                   else q' = p \<and> err = None \<and> s' = ?s1"
        by (simp_all add: waitLoop_post_def)
      have "polled svc s q' err s'"
      proof (cases "inflight (Status p)")
        case False
        with rest Inr show ?thesis by (auto simp: polled_def)
      next
        case T: True
        with rest have pl: "polled svc ?s1 q' err s'" by simp
        show ?thesis by (rule polled_step[OF Inr T _ pl]) simp
      qed
      with nf True y show ?thesis by (simp add: waitLoop_post_def)
    qed
  qed
qed

text \<open>
  C6.  Whenever \<^verbatim>\<open>WaitForCurrentBulkQuery\<close> returns, the snapshot it returns has a status
  other than \<^verbatim>\<open>CREATED\<close>, \<^verbatim>\<open>RUNNING\<close> and \<^verbatim>\<open>CANCELING\<close>; that snapshot is the reply to the
  last status query it sent (the zero snapshot, whose status is empty, when that query
  failed), and every reply before the last one carried an in-flight status.
\<close>

theorem WaitForCurrentBulkQuery_terminal:
  assumes "WaitForCurrentBulkQuery svc interval s = Some ((q, err), s')"
  shows "Status q \<notin> {''CREATED'', ''RUNNING'', ''CANCELING''} \<and> polled svc s q err s'"
proof (cases "currentOp svc (queries s)")
  case (Inl e)
  with assms show ?thesis
    by (auto simp: WaitForCurrentBulkQuery_def GetCurrentBulkQuery_def polled_def zeroOperation_def)
next
  case (Inr p)
  let ?s1 = "s\<lparr>queries := Suc (queries s)\<rparr>"
  from Inr assms have "waitLoop svc interval p ?s1 = Some ((q, err), s')"
    by (simp add: WaitForCurrentBulkQuery_def GetCurrentBulkQuery_def)
  from waitLoop_sound[OF this]
  have nf: "\<not> inflight (Status q)"
    and rest: "if inflight (Status p) then polled svc ?s1 q err s' else q = p \<and> err = None \<and> s' = ?s1"
    by (simp_all add: waitLoop_post_def)
  have "polled svc s q err s'"
  proof (cases "inflight (Status p)")
    case False
    with rest Inr show ?thesis by (auto simp: polled_def)
  next
    case True
    with rest have pl: "polled svc ?s1 q err s'" by simp
    show ?thesis by (rule polled_step[OF Inr True _ pl]) simp
  qed
  with nf show ?thesis by (simp add: inflight_def)
qed

theorem WaitForCurrentBulkQuery_terminal_witness:
  "WaitForCurrentBulkQuery exampleService Second fresh =
     Some ((zeroOperation\<lparr>Status := ''COMPLETED'', ObjectCount := ''0''\<rparr>, None),
           \<lparr>queries = 4, cancels = [], naps = [Second, Second, Second]\<rparr>)
   \<and> Status (zeroOperation\<lparr>Status := ''COMPLETED'', ObjectCount := ''0''\<rparr>)
       \<notin> {''CREATED'', ''RUNNING'', ''CANCELING''}"
proof -
  have h: "WaitForCurrentBulkQuery exampleService Second fresh =
     Some ((zeroOperation\<lparr>Status := ''COMPLETED'', ObjectCount := ''0''\<rparr>, None),
           \<lparr>queries = 4, cancels = [], naps = [Second, Second, Second]\<rparr>)"
    by (simp add: WaitForCurrentBulkQuery_def GetCurrentBulkQuery_def exampleService_def fresh_def
        waitLoop.simps inflight_def zeroOperation_def)
  from WaitForCurrentBulkQuery_terminal[OF h] h show ?thesis by simp
qed

text \<open>
  The wait does return once the service reports a status that is not in flight: after \<open>k\<close>
  in-flight replies it has slept \<open>k\<close> times and sent \<open>k + 1\<close> queries.
\<close>

lemma waitLoop_run:
  assumes "inflight (Status q0)"
    and "\<forall>n. queries s \<le> n \<and> n < queries s + k \<longrightarrow> (\<exists>p. currentOp svc n = Inr p \<and> inflight (Status p))"
    and "currentOp svc (queries s + k) = Inr q" and "\<not> inflight (Status q)"
  shows "waitLoop svc i q0 s =
           Some ((q, None), s\<lparr>queries := Suc (queries s + k), naps := naps s @ replicate (Suc k) i\<rparr>)"
  using assms
proof (induction k arbitrary: q0 s)
  case 0
  then show ?case
    by (subst waitLoop.simps, subst waitLoop.simps) (simp add: GetCurrentBulkQuery_def)
next
  case (Suc k)
  from Suc.prems(2) obtain p where p: "currentOp svc (queries s) = Inr p" "inflight (Status p)"
    by force
  let ?s1 = "s\<lparr>naps := naps s @ [i], queries := Suc (queries s)\<rparr>"
  have "waitLoop svc i p ?s1 =
          Some ((q, None), ?s1\<lparr>queries := Suc (queries ?s1 + k), naps := naps ?s1 @ replicate (Suc k) i\<rparr>)"
  proof (rule Suc.IH[OF p(2) _ _ Suc.prems(4)])
    show "\<forall>n. queries ?s1 \<le> n \<and> n < queries ?s1 + k \<longrightarrow> (\<exists>p. currentOp svc n = Inr p \<and> inflight (Status p))"
      using Suc.prems(2) by simp
    show "currentOp svc (queries ?s1 + k) = Inr q" using Suc.prems(3) by simp
  qed
  with Suc.prems(1) p show ?case
    by (subst waitLoop.simps) (simp add: GetCurrentBulkQuery_def replicate_app_Cons_same)
qed

lemma WaitForCurrentBulkQuery_run:
  assumes "\<forall>n. queries s \<le> n \<and> n < queries s + k \<longrightarrow> (\<exists>p. currentOp svc n = Inr p \<and> inflight (Status p))"
    and "currentOp svc (queries s + k) = Inr q" and "\<not> inflight (Status q)"
  shows "WaitForCurrentBulkQuery svc i s =
           Some ((q, None), s\<lparr>queries := Suc (queries s + k), naps := naps s @ replicate k i\<rparr>)"
proof (cases k)
  case 0
  with assms show ?thesis
    by (simp add: WaitForCurrentBulkQuery_def GetCurrentBulkQuery_def) (subst waitLoop.simps, simp)
next
  case (Suc j)
  from assms(1) Suc obtain p where p: "currentOp svc (queries s) = Inr p" "inflight (Status p)"
    by force
  let ?s1 = "s\<lparr>queries := Suc (queries s)\<rparr>"
  have "waitLoop svc i p ?s1 =
          Some ((q, None), ?s1\<lparr>queries := Suc (queries ?s1 + j), naps := naps ?s1 @ replicate (Suc j) i\<rparr>)"
  proof (rule waitLoop_run[OF p(2) _ _ assms(3)])
    show "\<forall>n. queries ?s1 \<le> n \<and> n < queries ?s1 + j \<longrightarrow> (\<exists>p. currentOp svc n = Inr p \<and> inflight (Status p))"
      using assms(1) Suc by simp
    show "currentOp svc (queries ?s1 + j) = Inr q" using assms(2) Suc by simp
  qed
  with p Suc show ?thesis
    by (simp add: WaitForCurrentBulkQuery_def GetCurrentBulkQuery_def)
qed

text \<open>
  C7.  \<^verbatim>\<open>ShouldGetBulkQueryResultURL\<close> first fetches the current operation and compares
  its identifier with the expected one, when one is given.  When that check passes and
  the polling that follows sees the operation reach \<^verbatim>\<open>COMPLETED\<close> (after \<open>k\<close> in-flight
  replies) with an empty error code and the object count \<^verbatim>\<open>"0"\<close>, the call returns the
  empty URL and no error; so does \<^verbatim>\<open>GetCurrentBulkQueryResultURL\<close>, which expects no
  identifier.
\<close>

theorem ShouldGetBulkQueryResultURL_zero_objects:
  assumes first: "currentOp svc (queries s) = Inr q0" and idok: "ident = None \<or> ID q0 = ident"
    and running: "\<forall>n. queries s < n \<and> n \<le> queries s + k \<longrightarrow> (\<exists>p. currentOp svc n = Inr p \<and> inflight (Status p))"
    and final: "currentOp svc (Suc (queries s + k)) = Inr q"
    and completed: "Status q = ''COMPLETED''" "ErrorCode q = []" "ObjectCount q = ''0''"
  shows "ShouldGetBulkQueryResultURL svc ident s =
           Some (([], None), s\<lparr>queries := queries s + k + 2, naps := naps s @ replicate k Second\<rparr>)
         \<and> GetCurrentBulkQueryResultURL svc s =
           Some (([], None), s\<lparr>queries := queries s + k + 2, naps := naps s @ replicate k Second\<rparr>)"
proof -
  let ?s1 = "s\<lparr>queries := Suc (queries s)\<rparr>"
  have nf: "\<not> inflight (Status q)" using completed(1) by (simp add: inflight_def)
  have w: "WaitForCurrentBulkQuery svc Second ?s1 =
          Some ((q, None), ?s1\<lparr>queries := Suc (queries ?s1 + k), naps := naps ?s1 @ replicate k Second\<rparr>)"
  proof (rule WaitForCurrentBulkQuery_run[OF _ _ nf])
    show "\<forall>n. queries ?s1 \<le> n \<and> n < queries ?s1 + k \<longrightarrow> (\<exists>p. currentOp svc n = Inr p \<and> inflight (Status p))"
      using running by simp
    show "currentOp svc (queries ?s1 + k) = Inr q" using final by simp
  qed
  have "ShouldGetBulkQueryResultURL svc ident s =
           Some (([], None), s\<lparr>queries := queries s + k + 2, naps := naps s @ replicate k Second\<rparr>)"
    if "ident = None \<or> ID q0 = ident" for ident
    using that first w completed
    by (auto simp: ShouldGetBulkQueryResultURL_def GetCurrentBulkQuery_def)
  from this[OF idok] this[of None] show ?thesis
    by (simp add: GetCurrentBulkQueryResultURL_def)
qed

theorem ShouldGetBulkQueryResultURL_zero_objects_witness:
  "ShouldGetBulkQueryResultURL exampleService None fresh =
     Some (([], None), \<lparr>queries = 4, cancels = [], naps = [Second, Second]\<rparr>)
   \<and> GetCurrentBulkQueryResultURL exampleService fresh =
     Some (([], None), \<lparr>queries = 4, cancels = [], naps = [Second, Second]\<rparr>)"
  using ShouldGetBulkQueryResultURL_zero_objects[of exampleService fresh
          "zeroOperation\<lparr>Status := ''RUNNING'', ObjectCount := ''0''\<rparr>" None 2
          "zeroOperation\<lparr>Status := ''COMPLETED'', ObjectCount := ''0''\<rparr>"]
  by (simp add: exampleService_def fresh_def inflight_def zeroOperation_def
      numeral_2_eq_2 numeral_3_eq_3)

text \<open>
  C8.  \<^verbatim>\<open>CancelRunningBulkQuery\<close> on a snapshot whose status is neither \<^verbatim>\<open>CREATED\<close> nor
  \<^verbatim>\<open>RUNNING\<close> (no active job, which is the zero snapshot, or a job that is already
  terminal): the call returns, it returns no error, it sends no cancel mutation and does
  not sleep; all it has done is the one status query.  The session \<open>s\<close> is arbitrary, so
  calling it again in the same situation does the same again.
\<close>

theorem CancelRunningBulkQuery_noop:
  assumes "currentOp svc (queries s) = Inr q"
    and "Status q \<noteq> ''CREATED''" and "Status q \<noteq> ''RUNNING''"
  shows "CancelRunningBulkQuery svc s = Some (None, s\<lparr>queries := Suc (queries s)\<rparr>)"
  using assms by (simp add: CancelRunningBulkQuery_def GetCurrentBulkQuery_def)

theorem CancelRunningBulkQuery_noop_witness:
  "currentOp exampleService (queries (fresh\<lparr>queries := 5\<rparr>))
     = Inr (zeroOperation\<lparr>Status := ''COMPLETED'', ObjectCount := ''0''\<rparr>)
   \<and> CancelRunningBulkQuery exampleService (fresh\<lparr>queries := 5\<rparr>)
     = Some (None, \<lparr>queries = 6, cancels = [], naps = []\<rparr>)"
  using CancelRunningBulkQuery_noop[of exampleService "fresh\<lparr>queries := 5\<rparr>"
          "zeroOperation\<lparr>Status := ''COMPLETED'', ObjectCount := ''0''\<rparr>"]
  by (simp add: exampleService_def fresh_def zeroOperation_def)

section \<open>Properties of the parser\<close>

subsection \<open>Reading lines\<close>

lemma splitLine_line:
  "CHR 0x0A \<notin> set l \<Longrightarrow> splitLine (l @ CHR 0x0A # rest) = Some (l @ [CHR 0x0A], rest)"
  by (induction l) auto

lemma splitLine_none: "CHR 0x0A \<notin> set t \<Longrightarrow> splitLine t = None"
  by (induction t) auto

lemma readLoop_line:
  assumes "CHR 0x0A \<notin> set l"
  shows "readLoop json T \<lparr>pending = l @ CHR 0x0A # rest, ending = e\<rparr> lk out =
           (case step json T (l @ [CHR 0x0A]) lk out of
              Inl err \<Rightarrow> Return err out
            | Inr (lk', out') \<Rightarrow> readLoop json T \<lparr>pending = rest, ending = e\<rparr> lk' out')"
  by (subst readLoop.simps) (simp add: ReadBytes_def splitLine_line[OF assms])

lemma readLoop_tail:
  assumes "CHR 0x0A \<notin> set t"
  shows "readLoop json T \<lparr>pending = t, ending = e\<rparr> lk out = Break e lk out"
  by (subst readLoop.simps) (simp add: ReadBytes_def splitLine_none[OF assms])

lemma readLoop_joinLines:
  assumes "\<forall>l \<in> set ls. CHR 0x0A \<notin> set l" and "CHR 0x0A \<notin> set t"
  shows "readLoop json T \<lparr>pending = joinLines ls @ t, ending = e\<rparr> lk out =
           (case runLines json T ls lk out of
              Inl (err, out') \<Rightarrow> Return err out'
            | Inr (lk', out') \<Rightarrow> Break e lk' out')"
  using assms(1)
proof (induction ls arbitrary: lk out)
  case Nil
  then show ?case by (simp add: joinLines_def readLoop_tail[OF assms(2)])
next
  case (Cons l ls)
  then have l: "CHR 0x0A \<notin> set l" and ls: "\<forall>l \<in> set ls. CHR 0x0A \<notin> set l" by simp_all
  have j: "joinLines (l # ls) @ t = l @ CHR 0x0A # (joinLines ls @ t)"
    by (simp add: joinLines_def)
  show ?case
    unfolding j readLoop_line[OF l]
    by (simp add: Cons.IH[OF ls] split: sum.splits)
qed

lemma runLines_append:
  "runLines json T (xs @ ys) lk out =
     (case runLines json T xs lk out of
        Inl e \<Rightarrow> Inl e
      | Inr (lk', out') \<Rightarrow> runLines json T ys lk' out')"
  by (induction xs arbitrary: lk out) (auto split: sum.splits)

text \<open>
  C10.  The bytes after the last newline of a result file are not decoded: the parse of a
  file whose last line is not closed by a newline is the parse of the file without that
  line, error and destination alike.  A file that holds nothing but such a line gives
  success and leaves the destination as it was.
\<close>

theorem parseBulkQueryResult_drops_unterminated_line:
  assumes "\<forall>l \<in> set ls. CHR 0x0A \<notin> set l" and "CHR 0x0A \<notin> set t"
  shows "parseBulkQueryResult json (onDisk (joinLines ls @ t)) resultFile out
           = parseBulkQueryResult json (onDisk (joinLines ls)) resultFile out
       \<and> parseBulkQueryResult json (onDisk t) resultFile
             (PtrToSlice isPtr itemType outSlice)
           = (None, PtrToSlice isPtr itemType outSlice)"
proof -
  have a: "readLoop json T \<lparr>pending = joinLines ls @ t, ending = EOF\<rparr> lk os
         = readLoop json T \<lparr>pending = joinLines ls, ending = EOF\<rparr> lk os" for T lk os
    using readLoop_joinLines[OF assms, of json T EOF lk os]
          readLoop_joinLines[OF assms(1), of "[]" json T EOF lk os] by simp
  show ?thesis
    by (simp add: parseBulkQueryResult_def onDisk_def a readLoop_tail[OF assms(2)] split: destination.splits)
qed

theorem parseBulkQueryResult_drops_unterminated_line_witness:
  "parseBulkQueryResult (flatJSON shop) (onDisk (joinLines [orderOne] @ orderTwo)) ''result.jsonl''
      (PtrToSlice False ''Order'' [])
   = (None, PtrToSlice False ''Order'' [orderOneRecord])"
proof -
  have lines: "\<forall>l \<in> set [orderOne]. CHR 0x0A \<notin> set l" by code_simp
  have t: "CHR 0x0A \<notin> set orderTwo" by code_simp
  have "parseBulkQueryResult (flatJSON shop) (onDisk (joinLines [orderOne])) ''result.jsonl''
      (PtrToSlice False ''Order'' []) = (None, PtrToSlice False ''Order'' [orderOneRecord])"
    by code_simp
  with parseBulkQueryResult_drops_unterminated_line[OF lines t, of "flatJSON shop" "''result.jsonl''" "PtrToSlice False ''Order'' []"]
  show ?thesis by simp
qed


subsection \<open>Lines that make the parse fail\<close>

lemma readLoop_failing_line:
  assumes lines: "\<forall>l \<in> set (pre @ cl # suf). CHR 0x0A \<notin> set l" and t: "CHR 0x0A \<notin> set t"
    and fails: "\<And>lk out. step json T (cl @ [CHR 0x0A]) lk out = Inl err"
  shows "\<exists>err' out'. readLoop json T \<lparr>pending = joinLines (pre @ cl # suf) @ t, ending = e\<rparr> lk out
            = Return err' out'"
    and "readLoop json T \<lparr>pending = joinLines pre, ending = e'\<rparr> lk out = Break e' lk' out'
         \<Longrightarrow> readLoop json T \<lparr>pending = joinLines (pre @ cl # suf) @ t, ending = e\<rparr> lk out
            = Return err out'"
proof -
  have pre: "\<forall>l \<in> set pre. CHR 0x0A \<notin> set l" using lines by simp
  have r: "readLoop json T \<lparr>pending = joinLines (pre @ cl # suf) @ t, ending = e\<rparr> lk out =
           (case runLines json T pre lk out of
              Inl (err', out') \<Rightarrow> Return err' out'
            | Inr (lk', out') \<Rightarrow> Return err out')"
    unfolding readLoop_joinLines[OF lines t]
    by (simp add: runLines_append fails split: sum.splits)
  show "\<exists>err' out'. readLoop json T \<lparr>pending = joinLines (pre @ cl # suf) @ t, ending = e\<rparr> lk out
            = Return err' out'"
    unfolding r by (auto split: sum.splits)
  assume "readLoop json T \<lparr>pending = joinLines pre, ending = e'\<rparr> lk out = Break e' lk' out'"
  then have "runLines json T pre lk out = Inr (lk', out')"
    using readLoop_joinLines[OF pre, of "[]" json T e' lk out]
    by (auto split: sum.splits)
  then show "readLoop json T \<lparr>pending = joinLines (pre @ cl # suf) @ t, ending = e\<rparr> lk out
            = Return err out'"
    unfolding r by simp
qed

lemma segments_noslash: "CHR ''/'' \<notin> set s \<Longrightarrow> segments s = [s]"
  by (induction s) auto

lemma segments_cut: "CHR ''/'' \<notin> set s \<Longrightarrow> segments (s @ CHR ''/'' # r) = s # segments r"
  by (induction s) auto

lemma isWord_noslash: "isWord c \<Longrightarrow> c \<noteq> CHR ''/''"
  by (auto simp: isWord_def isDigit_def)

lemma isDigit_noslash: "isDigit c \<Longrightarrow> c \<noteq> CHR ''/''"
  by (auto simp: isDigit_def)

lemma FindStringSubmatch_form:
  assumes "FindStringSubmatch gid \<noteq> []"
  shows "spec_gid_form gid"
proof -
  let ?d = "drop 14 gid"
  let ?res = "takeWhile isWord ?d"
  let ?rest = "dropWhile isWord ?d"
  from assms have pre: "take 14 gid = ''gid://shopify/''"
    and res: "?res \<noteq> []" and rest: "?rest \<noteq> []" "hd ?rest = CHR ''/''"
    and ds: "tl ?rest \<noteq> []" "list_all isDigit (tl ?rest)"
    by (auto simp: FindStringSubmatch_def Let_def split: if_splits)
  have "gid = take 14 gid @ ?d" by simp
  also have "?d = ?res @ ?rest" by simp
  also have "?rest = CHR ''/'' # tl ?rest" using rest by (cases ?rest) auto
  finally have gid: "gid = ''gid:'' @ CHR ''/'' # ([] @ CHR ''/'' # (''shopify'' @ CHR ''/'' #
                        (?res @ CHR ''/'' # tl ?rest)))"
    using pre by simp
  have r: "CHR ''/'' \<notin> set ?res"
    using isWord_noslash by (auto dest: set_takeWhileD)
  have d: "CHR ''/'' \<notin> set (tl ?rest)"
    using ds(2) isDigit_noslash by (auto simp: list_all_iff)
  have "segments gid = [''gid:'', [], ''shopify'', ?res, tl ?rest]"
    by (subst gid) (simp only: segments_cut segments_noslash r d set_simps empty_iff insert_iff
          char.inject simp_thms not_False_eq_True list.set)
  with res ds show ?thesis by (simp add: spec_gid_form_def)
qed


lemma concludeObjectType_malformed:
  "FindStringSubmatch gid = [] \<Longrightarrow> concludeObjectType gid = Inl (Errorf (''malformed gid=`'' @ gid @ ''`''))"
  by (simp add: concludeObjectType_def)

lemma concludeObjectType_unknown:
  "FindStringSubmatch gid = [gid, resource] \<Longrightarrow> resource \<notin> set knownTags \<Longrightarrow>
     concludeObjectType gid = Inl (Errorf (''`'' @ resource @ ''` not implemented type''))"
  by (simp add: concludeObjectType_def knownTags_def)

lemma parse_failing_line:
  assumes lines: "\<forall>l \<in> set (pre @ cl # suf). CHR 0x0A \<notin> set l" and t: "CHR 0x0A \<notin> set t"
    and opened: "fs resultFile = Inr \<lparr>pending = joinLines (pre @ cl # suf) @ t, ending = e\<rparr>"
    and fails: "\<And>lk out. step json itemType (cl @ [CHR 0x0A]) lk out = Inl err"
  shows "fst (parseBulkQueryResult json fs resultFile (PtrToSlice isPtr itemType outSlice)) \<noteq> None"
    and "readLoop json itemType \<lparr>pending = joinLines pre, ending = EOF\<rparr> [] outSlice = Break EOF lk out'
         \<Longrightarrow> parseBulkQueryResult json fs resultFile (PtrToSlice isPtr itemType outSlice)
             = (Some err, PtrToSlice isPtr itemType out')"
proof -
  from readLoop_failing_line(1)[where pre=pre and cl=cl and suf=suf, OF lines t fails, of e "[]" outSlice]
  show "fst (parseBulkQueryResult json fs resultFile (PtrToSlice isPtr itemType outSlice)) \<noteq> None"
    by (auto simp: parseBulkQueryResult_def opened)
  assume "readLoop json itemType \<lparr>pending = joinLines pre, ending = EOF\<rparr> [] outSlice = Break EOF lk out'"
  from readLoop_failing_line(2)[where pre=pre and cl=cl and suf=suf, OF lines t fails this, of e]
  show "parseBulkQueryResult json fs resultFile (PtrToSlice isPtr itemType outSlice)
             = (Some err, PtrToSlice isPtr itemType out')"
    by (simp add: parseBulkQueryResult_def opened)
qed

text \<open>
  C9, as the code has it.  A line is complete when a newline closes it; the bytes after
  the last newline are not looked at.  A complete line that carries a parent reference makes the parse fail when it has
  no \<^verbatim>\<open>id\<close> member, and when its identifier is not of the form
  \<^verbatim>\<open>scheme://namespace/<ResourceType>/<digits>\<close>.  When the lines before it are read without
  error, the error returned is \<^verbatim>\<open>Connection type must query `id` field\<close> in the first
  case and \<^verbatim>\<open>malformed gid=...\<close> in the second.
\<close>

theorem parseBulkQueryResult_child_identifier:
  assumes lines: "\<forall>l \<in> set (pre @ cl # suf). CHR 0x0A \<notin> set l" and t: "CHR 0x0A \<notin> set t"
    and opened: "fs resultFile = Inr \<lparr>pending = joinLines (pre @ cl # suf) @ t, ending = e\<rparr>"
    and child: "Get json (cl @ [CHR 0x0A]) ''__parentId'' = Some parentID"
    and bad: "Get json (cl @ [CHR 0x0A]) ''id'' = None
              \<or> (\<exists>gid. Get json (cl @ [CHR 0x0A]) ''id'' = Some gid \<and> \<not> spec_gid_form gid)"
  shows "fst (parseBulkQueryResult json fs resultFile (PtrToSlice isPtr itemType outSlice)) \<noteq> None
       \<and> (\<forall>lk out'.
            readLoop json itemType \<lparr>pending = joinLines pre, ending = EOF\<rparr> [] outSlice = Break EOF lk out'
            \<longrightarrow> fst (parseBulkQueryResult json fs resultFile (PtrToSlice isPtr itemType outSlice))
                = Some (case Get json (cl @ [CHR 0x0A]) ''id'' of
                          None \<Rightarrow> Errorf ''Connection type must query `id` field''
                        | Some gid \<Rightarrow> Errorf (''malformed gid=`'' @ gid @ ''`'')))"
proof -
  let ?err = "case Get json (cl @ [CHR 0x0A]) ''id'' of
                None \<Rightarrow> Errorf ''Connection type must query `id` field''
              | Some gid \<Rightarrow> Errorf (''malformed gid=`'' @ gid @ ''`'')"
  have fails: "step json itemType (cl @ [CHR 0x0A]) lk out = Inl ?err" for lk out
  proof (cases "Get json (cl @ [CHR 0x0A]) ''id''")
    case None
    with child show ?thesis by (simp add: step_def)
  next
    case (Some gid)
    with bad have "\<not> spec_gid_form gid" by auto
    with FindStringSubmatch_form have "FindStringSubmatch gid = []" by blast
    from concludeObjectType_malformed[OF this] child Some show ?thesis by (simp add: step_def)
  qed
  from parse_failing_line[where pre=pre and cl=cl and suf=suf and fs=fs and resultFile=resultFile, OF lines t opened fails] show ?thesis by simp
qed

theorem parseBulkQueryResult_child_identifier_witness:
  "fst (parseBulkQueryResult (flatJSON shop) (onDisk (joinLines [orderOne, shortChild, orderTwo]))
          ''result.jsonl'' (PtrToSlice False ''Order'' []))
   = Some (Errorf ''malformed gid=`gid://shopify/LineItem`'')"
proof -
  have lines: "\<forall>l \<in> set ([orderOne] @ shortChild # [orderTwo]). CHR 0x0A \<notin> set l" by code_simp
  have t: "CHR 0x0A \<notin> set []" by simp
  have opened: "onDisk (joinLines [orderOne, shortChild, orderTwo]) ''result.jsonl''
              = Inr \<lparr>pending = joinLines ([orderOne] @ shortChild # [orderTwo]) @ [], ending = EOF\<rparr>"
    by (simp add: onDisk_def)
  have child: "Get (flatJSON shop) (shortChild @ [CHR 0x0A]) ''__parentId'' = Some ''gid://x/Order/1''"
    by code_simp
  have id: "Get (flatJSON shop) (shortChild @ [CHR 0x0A]) ''id'' = Some ''gid://shopify/LineItem''"
    by code_simp
  have "\<not> spec_gid_form ''gid://shopify/LineItem''" by code_simp
  with id have bad: "Get (flatJSON shop) (shortChild @ [CHR 0x0A]) ''id'' = None
      \<or> (\<exists>gid. Get (flatJSON shop) (shortChild @ [CHR 0x0A]) ''id'' = Some gid \<and> \<not> spec_gid_form gid)"
    by blast
  have run: "readLoop (flatJSON shop) ''Order'' \<lparr>pending = joinLines [orderOne], ending = EOF\<rparr> [] []
             = Break EOF [] [orderOneRecord]"
    by code_simp
  from parseBulkQueryResult_child_identifier[where pre="[orderOne]" and cl=shortChild and suf="[orderTwo]"
      and fs="onDisk (joinLines [orderOne, shortChild, orderTwo])" and resultFile="''result.jsonl''",
      OF lines t opened child bad, of False "''Order''" "[]"] run
  show ?thesis by (simp add: id)
qed


text \<open>
  The claim fails on a child line without identifier that ends the file and is not closed
  by a newline: the call returns no error.
\<close>

theorem parseBulkQueryResult_child_identifier_counterexample:
  "parseBulkQueryResult (flatJSON shop) (onDisk (joinLines [orderOne] @ namelessChild))
      ''result.jsonl'' (PtrToSlice False ''Order'' [])
   = (None, PtrToSlice False ''Order'' [orderOneRecord])
   \<and> Get (flatJSON shop) namelessChild ''__parentId'' = Some ''gid://x/Order/1''
   \<and> Get (flatJSON shop) namelessChild ''id'' = None"
  by code_simp

text \<open>
  C3, as the code has it.  A complete child line whose identifier carries a resource type
  outside the resolver's mapping makes the parse fail: the line is not skipped.  When the
  lines before it are read without error, the error is \<^verbatim>\<open>`...` not implemented type\<close>, and
  the destination holds the parent records appended before that line.
\<close>

theorem parseBulkQueryResult_unknown_tag:
  assumes lines: "\<forall>l \<in> set (pre @ cl # suf). CHR 0x0A \<notin> set l" and t: "CHR 0x0A \<notin> set t"
    and opened: "fs resultFile = Inr \<lparr>pending = joinLines (pre @ cl # suf) @ t, ending = e\<rparr>"
    and child: "Get json (cl @ [CHR 0x0A]) ''__parentId'' = Some parentID"
    and ident: "Get json (cl @ [CHR 0x0A]) ''id'' = Some gid"
    and tag: "FindStringSubmatch gid = [gid, resource]" and unknown: "resource \<notin> set knownTags"
  shows "fst (parseBulkQueryResult json fs resultFile (PtrToSlice isPtr itemType outSlice)) \<noteq> None
       \<and> (\<forall>lk out'.
            readLoop json itemType \<lparr>pending = joinLines pre, ending = EOF\<rparr> [] outSlice = Break EOF lk out'
            \<longrightarrow> parseBulkQueryResult json fs resultFile (PtrToSlice isPtr itemType outSlice)
                = (Some (Errorf (''`'' @ resource @ ''` not implemented type'')),
                   PtrToSlice isPtr itemType out'))"
proof -
  have fails: "step json itemType (cl @ [CHR 0x0A]) lk out
               = Inl (Errorf (''`'' @ resource @ ''` not implemented type''))" for lk out
    using child ident concludeObjectType_unknown[OF tag unknown] by (simp add: step_def)
  from parse_failing_line[where pre=pre and cl=cl and suf=suf and fs=fs and resultFile=resultFile,
      OF lines t opened fails]
  show ?thesis by simp
qed

theorem parseBulkQueryResult_unknown_tag_witness:
  "parseBulkQueryResult (flatJSON shop) (onDisk (joinLines [orderOne, customerChild, orderTwo]))
      ''result.jsonl'' (PtrToSlice False ''Order'' [])
   = (Some (Errorf ''`Customer` not implemented type''), PtrToSlice False ''Order'' [orderOneRecord])"
proof -
  have lines: "\<forall>l \<in> set ([orderOne] @ customerChild # [orderTwo]). CHR 0x0A \<notin> set l" by code_simp
  have t: "CHR 0x0A \<notin> set []" by simp
  have opened: "onDisk (joinLines [orderOne, customerChild, orderTwo]) ''result.jsonl''
              = Inr \<lparr>pending = joinLines ([orderOne] @ customerChild # [orderTwo]) @ [], ending = EOF\<rparr>"
    by (simp add: onDisk_def)
  have child: "Get (flatJSON shop) (customerChild @ [CHR 0x0A]) ''__parentId'' = Some ''gid://x/Order/1''"
    by code_simp
  have ident: "Get (flatJSON shop) (customerChild @ [CHR 0x0A]) ''id'' = Some ''gid://shopify/Customer/7''"
    by code_simp
  have tag: "FindStringSubmatch ''gid://shopify/Customer/7'' = [''gid://shopify/Customer/7'', ''Customer'']"
    by code_simp
  have unknown: "''Customer'' \<notin> set knownTags" by code_simp
  have run: "readLoop (flatJSON shop) ''Order'' \<lparr>pending = joinLines [orderOne], ending = EOF\<rparr> [] []
             = Break EOF [] [orderOneRecord]"
    by code_simp
  from parseBulkQueryResult_unknown_tag[where pre="[orderOne]" and cl=customerChild and suf="[orderTwo]"
      and fs="onDisk (joinLines [orderOne, customerChild, orderTwo])" and resultFile="''result.jsonl''",
      OF lines t opened child ident tag unknown, of False "''Order''" "[]"] run
  show ?thesis by simp
qed

text \<open>
  The destination is not left empty on such a failure: the two orders read before the
  offending line are in it.
\<close>

theorem parseBulkQueryResult_unknown_tag_counterexample:
  "parseBulkQueryResult (flatJSON shop) (onDisk (joinLines [orderOne, hat, orderTwo, customerChild]))
      ''result.jsonl'' (PtrToSlice False ''Order'' [])
   = (Some (Errorf ''`Customer` not implemented type''),
      PtrToSlice False ''Order'' [orderOneRecord, orderTwoRecord])"
  by code_simp

subsection \<open>What the read loop collects\<close>

lemma concludeObjectType_elemTypeOf:
  "concludeObjectType gid = Inr (T, field) \<Longrightarrow> T = elemTypeOf field"
  by (auto simp: concludeObjectType_def elemTypeOf_def Let_def split: if_splits)

lemma step_child:
  assumes "asChild json l = Some (parentID, field, c)"
  shows "step json T (l @ [CHR 0x0A]) lk out =
           Inr (AList.update parentID
                  (AList.update field (elemTypeOf field, slots lk parentID field @ [c])
                     (case map_of lk parentID of Some ch \<Rightarrow> ch | None \<Rightarrow> []))
                  lk, out)"
  using assms
  by (auto simp: asChild_def step_def slots_def Let_def dest!: concludeObjectType_elemTypeOf
           split: option.splits sum.splits)

lemma step_parent:
  assumes "asParent json T l = Some item"
  shows "step json T (l @ [CHR 0x0A]) lk out = Inr (lk, out @ [item])"
  using assms by (auto simp: asParent_def step_def split: option.splits sum.splits)

lemma asParent_not_child: "asParent json T l = Some item \<Longrightarrow> asChild json l = None"
  by (auto simp: asParent_def asChild_def split: option.splits)

lemma asChild_not_parent: "asChild json l = Some x \<Longrightarrow> asParent json T l = None"
  by (auto simp: asParent_def asChild_def split: option.splits)

lemma map_filter_snoc:
  "List.map_filter f (xs @ [x]) = List.map_filter f xs @ (case f x of None \<Rightarrow> [] | Some y \<Rightarrow> [y])"
  by (simp add: List.map_filter_def split: option.splits)

lemma childrenIn_snoc_child:
  "asChild json l = Some (p, f, c) \<Longrightarrow>
     childrenIn json (ls @ [l]) parentID field =
       childrenIn json ls parentID field @ (if parentID = p \<and> field = f then [c] else [])"
  by (simp add: childrenIn_def map_filter_snoc)

lemma childrenIn_snoc_other:
  "asChild json l = None \<Longrightarrow> childrenIn json (ls @ [l]) parentID field = childrenIn json ls parentID field"
  by (simp add: childrenIn_def map_filter_snoc)

lemma parentsIn_snoc:
  "parentsIn json T (ls @ [l]) = parentsIn json T ls @ (case asParent json T l of None \<Rightarrow> [] | Some y \<Rightarrow> [y])"
  by (simp add: parentsIn_def map_filter_snoc)

lemma collected_empty: "collected json [] []"
  by (simp add: collected_def slots_def childrenIn_def List.map_filter_def)

lemma slots_update:
  "slots (AList.update p (AList.update f (T, cs) (case map_of lk p of Some ch \<Rightarrow> ch | None \<Rightarrow> [])) lk)
      parentID field =
   (if parentID = p \<and> field = f then cs else slots lk parentID field)"
  by (auto simp: slots_def update_conv' split: option.splits)

lemma collected_child:
  assumes inv: "collected json ls lk" and ch: "asChild json l = Some (p, f, c)"
  shows "collected json (ls @ [l])
           (AList.update p (AList.update f (elemTypeOf f, slots lk p f @ [c])
              (case map_of lk p of Some ch \<Rightarrow> ch | None \<Rightarrow> [])) lk)"
proof -
  let ?old = "case map_of lk p of Some ch \<Rightarrow> ch | None \<Rightarrow> []"
  let ?new = "AList.update f (elemTypeOf f, slots lk p f @ [c]) ?old"
  let ?lk = "AList.update p ?new lk"
  have old1: "distinct (map fst ?old)"
  proof (cases "map_of lk p")
    case None then show ?thesis by simp
  next
    case (Some a) with inv show ?thesis unfolding collected_def by simp
  qed
  have old2: "T = elemTypeOf field \<and> cs \<noteq> []" if a: "map_of ?old field = Some (T, cs)" for field T cs
  proof (cases "map_of lk p")
    case None with a show ?thesis by simp
  next
    case (Some b)
    with a have "map_of b field = Some (T, cs)" by simp
    with inv Some show ?thesis unfolding collected_def by blast
  qed
  have a: "slots ?lk parentID field = childrenIn json (ls @ [l]) parentID field" for parentID field
    using inv by (auto simp: slots_update childrenIn_snoc_child[OF ch] collected_def)
  have new: "?new \<noteq> [] \<and> distinct (map fst ?new) \<and>
        (\<forall>field T cs. map_of ?new field = Some (T, cs) \<longrightarrow> T = elemTypeOf field \<and> cs \<noteq> [])"
  proof (intro conjI allI impI)
    show "?new \<noteq> []" by (cases ?old) auto
    show "distinct (map fst ?new)" using old1 by (simp add: distinct_update)
  next
    fix field T cs assume "map_of ?new field = Some (T, cs)"
    then show "T = elemTypeOf field" using old2[of field T cs]
      by (auto simp: update_conv' split: if_splits)
  next
    fix field T cs assume "map_of ?new field = Some (T, cs)"
    then show "cs \<noteq> []" using old2[of field T cs]
      by (auto simp: update_conv' split: if_splits)
  qed
  have b: "chn \<noteq> [] \<and> distinct (map fst chn) \<and>
        (\<forall>field T cs. map_of chn field = Some (T, cs) \<longrightarrow> T = elemTypeOf field \<and> cs \<noteq> [])"
    if m: "map_of ?lk parentID = Some chn" for parentID chn
  proof (cases "parentID = p")
    case True
    with m have eq: "chn = ?new" by (simp add: update_conv')
    show ?thesis unfolding eq by (rule new)
  next
    case False
    with m have "map_of lk parentID = Some chn" by (simp add: update_conv')
    with inv show ?thesis unfolding collected_def by blast
  qed
  have c: "\<forall>parentID chn. map_of ?lk parentID = Some chn \<longrightarrow>
        chn \<noteq> [] \<and> distinct (map fst chn) \<and>
        (\<forall>field T cs. map_of chn field = Some (T, cs) \<longrightarrow> T = elemTypeOf field \<and> cs \<noteq> [])"
    using b by (intro allI impI)
  show ?thesis unfolding collected_def by (intro conjI allI a c)
qed

lemma collected_other:
  "collected json ls lk \<Longrightarrow> asChild json l = None \<Longrightarrow> collected json (ls @ [l]) lk"
  by (simp add: collected_def childrenIn_snoc_other)

lemma runLines_collects:
  assumes "\<forall>l \<in> set ls. asParent json T l \<noteq> None \<or> asChild json l \<noteq> None"
    and "collected json seen lk"
  shows "\<exists>lk'. runLines json T ls lk (out0 @ parentsIn json T seen)
                = Inr (lk', out0 @ parentsIn json T (seen @ ls))
              \<and> collected json (seen @ ls) lk'"
  using assms
proof (induction ls arbitrary: seen lk)
  case Nil
  then show ?case by simp
next
  case (Cons l ls)
  from Cons.prems(1) have rest: "\<forall>l \<in> set ls. asParent json T l \<noteq> None \<or> asChild json l \<noteq> None"
    by simp
  show ?case
  proof (cases "asChild json l")
    case (Some x)
    obtain p f c where x: "x = (p, f, c)" by (cases x) auto
    let ?lk = "AList.update p (AList.update f (elemTypeOf f, slots lk p f @ [c])
                 (case map_of lk p of Some ch \<Rightarrow> ch | None \<Rightarrow> [])) lk"
    from Some x have ch: "asChild json l = Some (p, f, c)" by simp
    have inv: "collected json (seen @ [l]) ?lk" by (rule collected_child[OF Cons.prems(2) ch])
    have par: "parentsIn json T (seen @ [l]) = parentsIn json T seen"
      by (simp add: parentsIn_snoc asChild_not_parent[OF ch])
    from Cons.IH[OF rest inv] par step_child[OF ch] show ?thesis by simp
  next
    case None
    with Cons.prems(1) obtain item where it: "asParent json T l = Some item" by auto
    have inv: "collected json (seen @ [l]) lk" by (rule collected_other[OF Cons.prems(2) None])
    have par: "parentsIn json T (seen @ [l]) = parentsIn json T seen @ [item]"
      by (simp add: parentsIn_snoc it)
    from Cons.IH[OF rest inv] par step_parent[OF it] show ?thesis by simp
  qed
qed

subsection \<open>Reconciliation\<close>

lemma setFields_fits:
  assumes "\<forall>x \<in> set ch. \<exists>t old. map_of flds (fst x) = Some (t, old)
             \<and> (t = TSlice (fst (snd x)) \<or> t = TInterface)"
    and "distinct (map fst ch)"
  shows "\<exists>flds'. setFields ch n flds = (None, flds') \<and>
           (\<forall>f. map_of flds' f =
              (case map_of ch f of
                 None \<Rightarrow> map_of flds f
               | Some (T, cs) \<Rightarrow>
                   (case map_of flds f of None \<Rightarrow> None | Some (t, old) \<Rightarrow> Some (t, VSlice T cs))))"
  using assms
proof (induction ch arbitrary: flds)
  case Nil
  then show ?case by simp
next
  case (Cons x ch)
  obtain k T v where x: "x = (k, T, v)" by (cases x) auto
  from Cons.prems(1) x obtain t old where k: "map_of flds k = Some (t, old)"
    and tk: "t = TSlice T \<or> t = TInterface" by auto
  let ?flds = "AList.update k (t, VSlice T v) flds"
  have fits: "\<forall>y \<in> set ch. \<exists>t' old'. map_of ?flds (fst y) = Some (t', old')
             \<and> (t' = TSlice (fst (snd y)) \<or> t' = TInterface)"
  proof
    fix y assume y: "y \<in> set ch"
    with Cons.prems(1) obtain t' old' where
      "map_of flds (fst y) = Some (t', old')" "t' = TSlice (fst (snd y)) \<or> t' = TInterface"
      by auto
    moreover from y Cons.prems(2) x have "fst y \<noteq> k" by auto
    ultimately show "\<exists>t' old'. map_of ?flds (fst y) = Some (t', old')
             \<and> (t' = TSlice (fst (snd y)) \<or> t' = TInterface)"
      by (simp add: update_conv')
  qed
  from Cons.prems(2) have d: "distinct (map fst ch)" and nk: "k \<notin> fst ` set ch"
    using x by auto
  from Cons.IH[OF fits d] obtain flds' where
    s: "setFields ch n ?flds = (None, flds')"
    and m: "\<And>f. map_of flds' f =
              (case map_of ch f of
                 None \<Rightarrow> map_of ?flds f
               | Some (T, cs) \<Rightarrow>
                   (case map_of ?flds f of None \<Rightarrow> None | Some (t, old) \<Rightarrow> Some (t, VSlice T cs)))"
    by blast
  have none: "map_of ch k = None" using nk by (simp add: map_of_eq_None_iff)
  have "setFields (x # ch) n flds = (None, flds')"
    using x k tk s by auto
  moreover have "map_of flds' f =
              (case map_of (x # ch) f of
                 None \<Rightarrow> map_of flds f
               | Some (T, cs) \<Rightarrow>
                   (case map_of flds f of None \<Rightarrow> None | Some (t, old) \<Rightarrow> Some (t, VSlice T cs)))" for f
  proof (cases "f = k")
    case True
    with m[of k] none k x show ?thesis by (simp add: update_conv')
  next
    case False
    with m[of f] x show ?thesis by (auto simp: update_conv' split: option.splits)
  qed
  ultimately show ?case by blast
qed

lemma keyOf_struct:
  assumes "keyOf p = Some parentID"
  obtains n flds t where "p = VStruct n flds" "map_of flds ''ID'' = Some (t, VString parentID)"
    "t = TString \<or> t = TInterface" "\<not> fieldIsZero t (VString parentID)"
proof -
  from assms obtain n flds where p: "p = VStruct n flds"
    by (cases p) (auto simp: keyOf_def FieldByName_def)
  with assms obtain t where "map_of flds ''ID'' = Some (t, VString parentID)"
    "t = TString \<or> t = TInterface" "\<not> fieldIsZero t (VString parentID)"
    by (auto simp: keyOf_def FieldByName_def split: option.splits gval.splits if_splits)
  with p that show ?thesis by blast
qed

lemma attach_unmatched:
  assumes "keyOf p = Some parentID" and "map_of lk parentID = None"
  shows "attach lk p = (None, p)"
proof -
  from assms(1) obtain n flds t where "p = VStruct n flds"
    "map_of flds ''ID'' = Some (t, VString parentID)"
    "t = TString \<or> t = TInterface" "\<not> fieldIsZero t (VString parentID)"
    by (rule keyOf_struct)
  with assms(2) show ?thesis by (auto simp: attach_def)
qed

lemma attach_matched:
  assumes "keyOf p = Some parentID" and "map_of lk parentID = Some ch" and "p = VStruct n flds"
  shows "attach lk p = (case setFields ch n flds of (err, flds') \<Rightarrow> (err, VStruct n flds'))"
proof -
  from assms(1) obtain n' flds' t where "p = VStruct n' flds'"
    "map_of flds' ''ID'' = Some (t, VString parentID)"
    "t = TString \<or> t = TInterface" "\<not> fieldIsZero t (VString parentID)"
    by (rule keyOf_struct)
  with assms(2,3) show ?thesis by (auto simp: attach_def)
qed

lemma reconcile_all:
  assumes "\<forall>p \<in> set out. fst (attach lk p) = None"
  shows "reconcile lk out = (None, map (\<lambda>p. snd (attach lk p)) out)"
  using assms
proof (induction out)
  case Nil
  then show ?case by simp
next
  case (Cons p out)
  then have "fst (attach lk p) = None" and "reconcile lk out = (None, map (\<lambda>p. snd (attach lk p)) out)"
    by simp_all
  then show ?case by (cases "attach lk p") simp
qed

lemma childrenIn_nonempty:
  assumes "childrenIn json ls parentID field \<noteq> []"
  shows "\<exists>y \<in> set (List.map_filter (asChild json) ls). fst y = parentID \<and> fst (snd y) = field"
proof -
  from assms obtain y where
    "y \<in> set (filter (\<lambda>x. fst x = parentID \<and> fst (snd x) = field) (List.map_filter (asChild json) ls))"
    unfolding childrenIn_def by (metis (no_types, lifting) list.map_disc_iff list.set_intros(1) neq_Nil_conv)
  then show ?thesis by auto
qed

lemma collected_entry:
  assumes inv: "collected json ls lk" and m: "map_of lk parentID = Some ch"
    and x: "(k, T, cs) \<in> set ch"
  shows "map_of ch k = Some (T, cs)" and "T = elemTypeOf k" and "cs \<noteq> []"
    and "childrenIn json ls parentID k = cs"
    and "\<exists>y \<in> set (List.map_filter (asChild json) ls). fst y = parentID \<and> fst (snd y) = k"
proof -
  from inv m have d: "distinct (map fst ch)" unfolding collected_def by blast
  from d x show a: "map_of ch k = Some (T, cs)" by simp
  from inv m a show b: "T = elemTypeOf k" and c: "cs \<noteq> []" unfolding collected_def by blast+
  from inv have "slots lk parentID k = childrenIn json ls parentID k" unfolding collected_def by blast
  with m a show e: "childrenIn json ls parentID k = cs" by (simp add: slots_def)
  from childrenIn_nonempty[of json ls parentID k] e c
  show "\<exists>y \<in> set (List.map_filter (asChild json) ls). fst y = parentID \<and> fst (snd y) = k" by simp
qed

lemma attach_nested:
  assumes inv: "collected json ls lk" and key: "keyOf p = Some parentID"
    and fits: "\<forall>x \<in> set (List.map_filter (asChild json) ls).
                 keyOf p = Some (fst x) \<longrightarrow> fitsField p (fst (snd x))"
  shows "fst (attach lk p) = None" and "nested json ls p (snd (attach lk p)) field"
proof -
  from inv have sl: "childrenIn json ls parentID f = slots lk parentID f" for f
    unfolding collected_def by simp
  show "fst (attach lk p) = None" and "nested json ls p (snd (attach lk p)) field"
  proof (atomize (full), cases "map_of lk parentID")
    case None
    then have "attach lk p = (None, p)" by (rule attach_unmatched[OF key])
    moreover from None have "childrenIn json ls parentID field = []" by (simp add: sl slots_def)
    ultimately show "fst (attach lk p) = None \<and> nested json ls p (snd (attach lk p)) field"
      using key by (simp add: nested_def)
  next
    case (Some ch)
    from key obtain n flds t where p: "p = VStruct n flds" by (rule keyOf_struct)
    have d: "distinct (map fst ch)" using inv Some unfolding collected_def by blast
    have ok: "\<exists>t old. map_of flds k = Some (t, old) \<and> (t = TSlice T \<or> t = TInterface)"
      if x: "(k, T, cs) \<in> set ch" for k T cs
    proof -
      from collected_entry(2,5)[OF inv Some x] obtain y where
        T: "T = elemTypeOf k" and y: "y \<in> set (List.map_filter (asChild json) ls)"
        "fst y = parentID" "fst (snd y) = k" by blast
      with fits key have "fitsField p k" by auto
      with p T show ?thesis by (auto simp: fitsField_def FieldByName_def split: option.splits)
    qed
    have "\<forall>x \<in> set ch. \<exists>t old. map_of flds (fst x) = Some (t, old)
             \<and> (t = TSlice (fst (snd x)) \<or> t = TInterface)"
      using ok by auto
    from setFields_fits[OF this d, of n] obtain flds' where
      s: "setFields ch n flds = (None, flds')"
      and m: "\<And>f. map_of flds' f =
              (case map_of ch f of
                 None \<Rightarrow> map_of flds f
               | Some (T, cs) \<Rightarrow>
                   (case map_of flds f of None \<Rightarrow> None | Some (t, old) \<Rightarrow> Some (t, VSlice T cs)))"
      by blast
    have a: "attach lk p = (None, VStruct n flds')"
      using attach_matched[OF key Some p] s by simp
    have "nested json ls p (VStruct n flds') field"
    proof (cases "map_of ch field")
      case None
      then have "childrenIn json ls parentID field = []" using Some by (simp add: sl slots_def)
      moreover from None m[of field] have "map_of flds' field = map_of flds field" by simp
      ultimately show ?thesis using key p by (simp add: nested_def FieldByName_def)
    next
      case (Some v)
      obtain T cs where v: "v = (T, cs)" by (cases v) auto
      with Some have x: "(field, T, cs) \<in> set ch" by (auto dest: map_of_SomeD)
      from collected_entry(2,3,4)[OF inv \<open>map_of lk parentID = Some ch\<close> x]
      have T: "T = elemTypeOf field" and cs: "cs \<noteq> []" "childrenIn json ls parentID field = cs"
        by simp_all
      from ok[OF x] obtain t old where f: "map_of flds field = Some (t, old)" by blast
      with m[of field] Some v have "map_of flds' field = Some (t, VSlice T cs)" by simp
      with key p T cs f show ?thesis
        by (cases cs) (simp_all add: nested_def FieldByName_def)
    qed
    with a show "fst (attach lk p) = None \<and> nested json ls p (snd (attach lk p)) field" by simp
  qed
qed

lemma parse_complete_lines:
  assumes lines: "\<forall>l \<in> set ls. CHR 0x0A \<notin> set l" and t: "CHR 0x0A \<notin> set t"
    and opened: "fs resultFile = Inr \<lparr>pending = joinLines ls @ t, ending = EOF\<rparr>"
    and decodes: "\<forall>l \<in> set ls. asParent json itemType l \<noteq> None \<or> asChild json l \<noteq> None"
  shows "\<exists>lk. collected json ls lk \<and>
           parseBulkQueryResult json fs resultFile (PtrToSlice isPtr itemType []) =
             (case (if length lk > 0 then reconcile lk (parentsIn json itemType ls)
                    else (None, parentsIn json itemType ls))
              of (Some err, out') \<Rightarrow> (Some err, PtrToSlice isPtr itemType out')
               | (None, out') \<Rightarrow> (None, PtrToSlice isPtr itemType out'))"
proof -
  from runLines_collects[OF decodes collected_empty, of "[]"] obtain lk where
    r: "runLines json itemType ls [] [] = Inr (lk, parentsIn json itemType ls)"
    and c: "collected json ls lk"
    by (auto simp: parentsIn_def List.map_filter_def)
  have "readLoop json itemType \<lparr>pending = joinLines ls @ t, ending = EOF\<rparr> [] []
          = Break EOF lk (parentsIn json itemType ls)"
    by (simp add: readLoop_joinLines[OF lines t] r)
  then have "parseBulkQueryResult json fs resultFile (PtrToSlice isPtr itemType []) =
             (case (if length lk > 0 then reconcile lk (parentsIn json itemType ls)
                    else (None, parentsIn json itemType ls))
              of (Some err, out') \<Rightarrow> (Some err, PtrToSlice isPtr itemType out')
               | (None, out') \<Rightarrow> (None, PtrToSlice isPtr itemType out'))"
    by (simp add: parseBulkQueryResult_def opened split: prod.splits option.splits)
  with c show ?thesis by blast
qed

text \<open>
  C1, as the code has it.  Take a stream of complete lines, each of which decodes as a
  parent or as a child (a child has an identifier that the resolver accepts, which is one
  of the form \<^verbatim>\<open>gid://shopify/<ResourceType>/<digits>\<close> and of no other namespace), in which every parent record has a usable
  \<^verbatim>\<open>ID\<close> and a field for each kind of child that refers to it.  Then the parse succeeds;
  the output holds one record per parent line, in the order of the parent lines; and each
  field of each record holds the children that refer to that parent and belong to that
  field, in the order of their lines, wherever they stand among the lines of other
  parents and other children.  A field without children is as the parent's line gave it.
\<close>

theorem parseBulkQueryResult_nests_in_arrival_order:
  assumes lines: "\<forall>l \<in> set ls. CHR 0x0A \<notin> set l" and t: "CHR 0x0A \<notin> set t"
    and opened: "fs resultFile = Inr \<lparr>pending = joinLines ls @ t, ending = EOF\<rparr>"
    and decodes: "\<forall>l \<in> set ls. asParent json itemType l \<noteq> None \<or> asChild json l \<noteq> None"
    and keyed: "\<forall>p \<in> set (parentsIn json itemType ls). keyOf p \<noteq> None"
    and fits: "\<forall>p \<in> set (parentsIn json itemType ls). \<forall>x \<in> set (List.map_filter (asChild json) ls).
                 keyOf p = Some (fst x) \<longrightarrow> fitsField p (fst (snd x))"
  shows "\<exists>res. parseBulkQueryResult json fs resultFile (PtrToSlice isPtr itemType [])
                  = (None, PtrToSlice isPtr itemType res)
               \<and> length res = length (parentsIn json itemType ls)
               \<and> (\<forall>i < length res. \<forall>field.
                     nested json ls (parentsIn json itemType ls ! i) (res ! i) field)"
proof -
  let ?ps = "parentsIn json itemType ls"
  from parse_complete_lines[where fs=fs and resultFile=resultFile, OF lines t opened decodes, of isPtr]
  obtain lk where
    c: "collected json ls lk"
    and p: "parseBulkQueryResult json fs resultFile (PtrToSlice isPtr itemType []) =
             (case (if length lk > 0 then reconcile lk ?ps else (None, ?ps))
              of (Some err, out') \<Rightarrow> (Some err, PtrToSlice isPtr itemType out')
               | (None, out') \<Rightarrow> (None, PtrToSlice isPtr itemType out'))"
    by blast
  let ?res = "map (\<lambda>p. snd (attach lk p)) ?ps"
  have each: "fst (attach lk q) = None \<and> (\<forall>field. nested json ls q (snd (attach lk q)) field)"
    if q: "q \<in> set ?ps" for q
  proof -
    from keyed q obtain parentID where k: "keyOf q = Some parentID" by auto
    from fits q have f: "\<forall>x \<in> set (List.map_filter (asChild json) ls).
                 keyOf q = Some (fst x) \<longrightarrow> fitsField q (fst (snd x))" by blast
    from attach_nested[OF c k f] show ?thesis by blast
  qed
  then have r: "reconcile lk ?ps = (None, ?res)" by (intro reconcile_all) blast
  have same: "?res = ?ps" if "lk = []"
  proof -
    have "snd (attach lk q) = q" if q: "q \<in> set ?ps" for q
    proof -
      from keyed q obtain parentID where k: "keyOf q = Some parentID" by auto
      from attach_unmatched[OF k, of lk] \<open>lk = []\<close> show ?thesis by simp
    qed
    then show ?thesis by (simp add: map_idI)
  qed
  have "parseBulkQueryResult json fs resultFile (PtrToSlice isPtr itemType [])
          = (None, PtrToSlice isPtr itemType ?res)"
    using p r same by (cases "lk = []") simp_all
  moreover have "length ?res = length ?ps" by simp
  moreover have "\<forall>i < length ?res. \<forall>field. nested json ls (?ps ! i) (?res ! i) field"
    using each by simp
  ultimately show ?thesis by blast
qed

text \<open>
  The stream of the specification: the order \<^verbatim>\<open>gid://x/Order/1\<close>, its two line items with
  a second order, that order's line item and a metafield in between.
\<close>

theorem parseBulkQueryResult_nests_in_arrival_order_witness:
  "parseBulkQueryResult (flatJSON shop)
      (onDisk (joinLines [orderOne, hat, orderTwo, scarf, gift, coat])) ''result.jsonl''
      (PtrToSlice False ''Order'' [])
   = (None, PtrToSlice False ''Order''
        [VStruct ''Order''
           [(''ID'', TInterface, VString ''gid://x/Order/1''), (''Name'', TString, VString ''#1001''),
            (''LineItems'', TSlice ''LineItem'', VSlice ''LineItem'' [hatRecord, coatRecord]),
            (''Metafields'', TSlice ''Metafield'', VSlice ''Metafield'' [giftRecord])],
         VStruct ''Order''
           [(''ID'', TInterface, VString ''gid://x/Order/2''), (''Name'', TString, VString ''#1002''),
            (''LineItems'', TSlice ''LineItem'', VSlice ''LineItem'' [scarfRecord]),
            (''Metafields'', TSlice ''Metafield'', VNil)]])
   \<and> (\<exists>res. parseBulkQueryResult (flatJSON shop)
          (onDisk (joinLines [orderOne, hat, orderTwo, scarf, gift, coat])) ''result.jsonl''
          (PtrToSlice False ''Order'' []) = (None, PtrToSlice False ''Order'' res)
        \<and> length res = 2
        \<and> FieldByName (res ! 0) ''LineItems''
            = Some (TSlice ''LineItem'', VSlice ''LineItem'' [hatRecord, coatRecord]))"
proof -
  let ?ls = "[orderOne, hat, orderTwo, scarf, gift, coat]"
  have lines: "\<forall>l \<in> set ?ls. CHR 0x0A \<notin> set l" by code_simp
  have t: "CHR 0x0A \<notin> set []" by simp
  have opened: "onDisk (joinLines ?ls) ''result.jsonl''
                = Inr \<lparr>pending = joinLines ?ls @ [], ending = EOF\<rparr>"
    by (simp add: onDisk_def)
  have decodes: "\<forall>l \<in> set ?ls. asParent (flatJSON shop) ''Order'' l \<noteq> None \<or> asChild (flatJSON shop) l \<noteq> None"
    by code_simp
  have keyed: "\<forall>p \<in> set (parentsIn (flatJSON shop) ''Order'' ?ls). keyOf p \<noteq> None"
    by code_simp
  have fits: "\<forall>p \<in> set (parentsIn (flatJSON shop) ''Order'' ?ls).
                \<forall>x \<in> set (List.map_filter (asChild (flatJSON shop)) ?ls).
                  keyOf p = Some (fst x) \<longrightarrow> fitsField p (fst (snd x))"
    by code_simp
  have ps: "parentsIn (flatJSON shop) ''Order'' ?ls = [orderOneRecord, orderTwoRecord]"
    by code_simp
  have k: "keyOf orderOneRecord = Some ''gid://x/Order/1''" by code_simp
  have ch: "childrenIn (flatJSON shop) ?ls ''gid://x/Order/1'' ''LineItems'' = [hatRecord, coatRecord]"
    by code_simp
  have f: "FieldByName orderOneRecord ''LineItems'' = Some (TSlice ''LineItem'', VNil)" by code_simp
  have e: "elemTypeOf ''LineItems'' = ''LineItem''" by code_simp
  from parseBulkQueryResult_nests_in_arrival_order[where fs="onDisk (joinLines ?ls)" and resultFile="''result.jsonl''",
      OF lines t opened decodes keyed fits, of False]
  obtain res where r: "parseBulkQueryResult (flatJSON shop) (onDisk (joinLines ?ls)) ''result.jsonl''
          (PtrToSlice False ''Order'' []) = (None, PtrToSlice False ''Order'' res)"
    and l: "length res = 2"
    and n: "nested (flatJSON shop) ?ls orderOneRecord (res ! 0) ''LineItems''"
    by (auto simp: ps)
  from n have "FieldByName (res ! 0) ''LineItems''
            = Some (TSlice ''LineItem'', VSlice ''LineItem'' [hatRecord, coatRecord])"
    by (simp add: nested_def k ch f e)
  moreover have "parseBulkQueryResult (flatJSON shop) (onDisk (joinLines ?ls)) ''result.jsonl''
      (PtrToSlice False ''Order'' [])
   = (None, PtrToSlice False ''Order''
        [VStruct ''Order''
           [(''ID'', TInterface, VString ''gid://x/Order/1''), (''Name'', TString, VString ''#1001''),
            (''LineItems'', TSlice ''LineItem'', VSlice ''LineItem'' [hatRecord, coatRecord]),
            (''Metafields'', TSlice ''Metafield'', VSlice ''Metafield'' [giftRecord])],
         VStruct ''Order''
           [(''ID'', TInterface, VString ''gid://x/Order/2''), (''Name'', TString, VString ''#1002''),
            (''LineItems'', TSlice ''LineItem'', VSlice ''LineItem'' [scarfRecord]),
            (''Metafields'', TSlice ''Metafield'', VNil)]])"
    by code_simp
  ultimately show ?thesis using r l by blast
qed

text \<open>
  The claim fails on the same order followed by two line items whose identifiers are in
  the order's own namespace, \<^verbatim>\<open>gid://x/LineItem/11\<close> and \<^verbatim>\<open>gid://x/LineItem/12\<close>: the resolver
  takes the first for malformed and the call returns its error.
\<close>

theorem parseBulkQueryResult_nests_in_arrival_order_counterexample:
  "parseBulkQueryResult (flatJSON shop) (onDisk (joinLines [orderOne, xHat, xCoat]))
      ''result.jsonl'' (PtrToSlice False ''Order'' [])
   = (Some (Errorf ''malformed gid=`gid://x/LineItem/11`''),
      PtrToSlice False ''Order'' [orderOneRecord])"
  by code_simp

text \<open>
  C2, as the code has it.  The reconciliation looks up the identifiers of the parents it
  has read and nothing else, so a child whose parent reference equals no parent's
  identifier is not detected.  When every line decodes, every parent has a usable \<^verbatim>\<open>ID\<close>
  and no child refers to any parent of the stream, the parse succeeds and returns the
  parents as their lines gave them: the children are dropped.
\<close>

theorem parseBulkQueryResult_drops_orphans:
  assumes lines: "\<forall>l \<in> set ls. CHR 0x0A \<notin> set l" and t: "CHR 0x0A \<notin> set t"
    and opened: "fs resultFile = Inr \<lparr>pending = joinLines ls @ t, ending = EOF\<rparr>"
    and decodes: "\<forall>l \<in> set ls. asParent json itemType l \<noteq> None \<or> asChild json l \<noteq> None"
    and keyed: "\<forall>p \<in> set (parentsIn json itemType ls). keyOf p \<noteq> None"
    and orphans: "\<forall>p \<in> set (parentsIn json itemType ls). \<forall>x \<in> set (List.map_filter (asChild json) ls).
                 keyOf p \<noteq> Some (fst x)"
  shows "parseBulkQueryResult json fs resultFile (PtrToSlice isPtr itemType [])
           = (None, PtrToSlice isPtr itemType (parentsIn json itemType ls))"
proof -
  let ?ps = "parentsIn json itemType ls"
  from parse_complete_lines[where fs=fs and resultFile=resultFile, OF lines t opened decodes, of isPtr]
  obtain lk where
    c: "collected json ls lk"
    and p: "parseBulkQueryResult json fs resultFile (PtrToSlice isPtr itemType []) =
             (case (if length lk > 0 then reconcile lk ?ps else (None, ?ps))
              of (Some err, out') \<Rightarrow> (Some err, PtrToSlice isPtr itemType out')
               | (None, out') \<Rightarrow> (None, PtrToSlice isPtr itemType out'))"
    by blast
  have each: "attach lk q = (None, q)" if q: "q \<in> set ?ps" for q
  proof -
    from keyed q obtain parentID where k: "keyOf q = Some parentID" by auto
    have "map_of lk parentID = None"
    proof (rule ccontr)
      assume "map_of lk parentID \<noteq> None"
      then obtain ch where m: "map_of lk parentID = Some ch" by auto
      with c have "ch \<noteq> []" unfolding collected_def by blast
      then obtain k' T cs where "(k', T, cs) \<in> set ch" by (cases ch) auto
      from collected_entry(5)[OF c m this] obtain y where
        "y \<in> set (List.map_filter (asChild json) ls)" "fst y = parentID" by blast
      with orphans q k show False by auto
    qed
    then show ?thesis by (rule attach_unmatched[OF k])
  qed
  then have "\<forall>q \<in> set ?ps. fst (attach lk q) = None" by simp
  from reconcile_all[OF this] each have "reconcile lk ?ps = (None, ?ps)" by (simp add: map_idI)
  with p show ?thesis by simp
qed

theorem parseBulkQueryResult_drops_orphans_witness:
  "parseBulkQueryResult (flatJSON shop) (onDisk (joinLines [orderOne, strayChild, orderTwo]))
      ''result.jsonl'' (PtrToSlice False ''Order'' [])
   = (None, PtrToSlice False ''Order'' [orderOneRecord, orderTwoRecord])"
proof -
  let ?ls = "[orderOne, strayChild, orderTwo]"
  have lines: "\<forall>l \<in> set ?ls. CHR 0x0A \<notin> set l" by code_simp
  have t: "CHR 0x0A \<notin> set []" by simp
  have opened: "onDisk (joinLines ?ls) ''result.jsonl''
                = Inr \<lparr>pending = joinLines ?ls @ [], ending = EOF\<rparr>"
    by (simp add: onDisk_def)
  have decodes: "\<forall>l \<in> set ?ls. asParent (flatJSON shop) ''Order'' l \<noteq> None \<or> asChild (flatJSON shop) l \<noteq> None"
    by code_simp
  have keyed: "\<forall>p \<in> set (parentsIn (flatJSON shop) ''Order'' ?ls). keyOf p \<noteq> None"
    by code_simp
  have orphans: "\<forall>p \<in> set (parentsIn (flatJSON shop) ''Order'' ?ls).
                \<forall>x \<in> set (List.map_filter (asChild (flatJSON shop)) ?ls). keyOf p \<noteq> Some (fst x)"
    by code_simp
  have ps: "parentsIn (flatJSON shop) ''Order'' ?ls = [orderOneRecord, orderTwoRecord]"
    by code_simp
  from parseBulkQueryResult_drops_orphans[where fs="onDisk (joinLines ?ls)" and resultFile="''result.jsonl''",
      OF lines t opened decodes keyed orphans, of False]
  show ?thesis by (simp add: ps)
qed

text \<open>
  The claim fails on an order followed by a line item of an order that is not in the
  file: the call returns no error, and the line item is in no record.
\<close>

theorem parseBulkQueryResult_drops_orphans_counterexample:
  "parseBulkQueryResult (flatJSON shop) (onDisk (joinLines [orderOne, strayChild]))
      ''result.jsonl'' (PtrToSlice False ''Order'' [])
   = (None, PtrToSlice False ''Order'' [orderOneRecord])
   \<and> asChild (flatJSON shop) strayChild
       = Some (''gid://x/Order/9'', ''LineItems'',
               VStruct ''LineItem'' [(''ID'', TInterface, VString ''gid://shopify/LineItem/31''),
                                    (''Title'', TString, VString ''cap'')])
   \<and> keyOf orderOneRecord = Some ''gid://x/Order/1''"
  by code_simp

end
